theory Spec2Isabelle
  imports Main "HOL-Library.Sublist"
begin

section \<open>Python strings\<close>

text \<open>
  A Python \<open>str\<close> is a sequence of Unicode code points and \<open>len\<close> counts code points,
  so a string is modelled as a list of code points (natural numbers). The function
  \<open>u\<close> turns an ASCII literal into such a list.
\<close>

type_synonym ustr = "nat list"

definition u :: "string \<Rightarrow> ustr" where
  "u s = map of_char s"

text \<open>\<open>str.isspace\<close> for one code point; the regular expression class \<open>\s\<close> on \<open>str\<close>
  patterns is the same set.\<close>

definition isspace :: "nat \<Rightarrow> bool" where
  "isspace c \<longleftrightarrow>
     (9 \<le> c \<and> c \<le> 13) \<or> (28 \<le> c \<and> c \<le> 32) \<or> c = 133 \<or> c = 160 \<or> c = 5760
     \<or> (8192 \<le> c \<and> c \<le> 8202) \<or> c = 8232 \<or> c = 8233 \<or> c = 8239 \<or> c = 8287
     \<or> c = 12288"

definition lstrip :: "ustr \<Rightarrow> ustr" where
  "lstrip s = dropWhile isspace s"

definition rstrip :: "ustr \<Rightarrow> ustr" where
  "rstrip s = rev (dropWhile isspace (rev s))"

definition strip :: "ustr \<Rightarrow> ustr" where
  "strip s = rstrip (lstrip s)"

text \<open>\<open>s.rstrip(chars)\<close> and \<open>s.lstrip(chars)\<close> with an explicit character set.\<close>

definition rstrip_chars :: "nat list \<Rightarrow> ustr \<Rightarrow> ustr" where
  "rstrip_chars cs s = rev (dropWhile (\<lambda>c. c \<in> set cs) (rev s))"

definition lstrip_chars :: "nat list \<Rightarrow> ustr \<Rightarrow> ustr" where
  "lstrip_chars cs s = dropWhile (\<lambda>c. c \<in> set cs) s"

definition startswith :: "ustr \<Rightarrow> ustr \<Rightarrow> bool" where
  "startswith s p = prefix p s"

definition endswith :: "ustr \<Rightarrow> ustr \<Rightarrow> bool" where
  "endswith s p = suffix p s"

text \<open>\<open>sub in s\<close>.\<close>

fun contains :: "ustr \<Rightarrow> ustr \<Rightarrow> bool" where
  "contains sub [] = (sub = [])"
| "contains sub (c # cs) = (prefix sub (c # cs) \<or> contains sub cs)"

text \<open>The slice \<open>s[:k]\<close> for a Python integer \<open>k\<close>: a negative \<open>k\<close> counts from the end.\<close>

definition slice_to :: "int \<Rightarrow> 'a list \<Rightarrow> 'a list" where
  "slice_to k s = (if 0 \<le> k then take (nat k) s else take (nat (int (length s) + k)) s)"

text \<open>\<open>sep.join(xs)\<close>.\<close>

fun join :: "ustr \<Rightarrow> ustr list \<Rightarrow> ustr" where
  "join sep [] = []"
| "join sep [x] = x"
| "join sep (x # y # ys) = x @ sep @ join sep (y # ys)"

text \<open>\<open>re.sub(r"\s+", " ", s)\<close>: every maximal run of whitespace becomes one space.\<close>

function collapse_ws :: "ustr \<Rightarrow> ustr" where
  "collapse_ws [] = []"
| "collapse_ws (c # cs) =
     (if isspace c then 32 # collapse_ws (dropWhile isspace cs) else c # collapse_ws cs)"
  by pat_completeness auto
termination
  by (relation "measure length") (auto simp: length_dropWhile_le less_Suc_eq_le)

section \<open>Constants\<close>

definition CODEX_MARKER :: ustr where
  "CODEX_MARKER = u ''@codex-header: v1''"

definition DEFAULT_MAX_WIDTH :: int where
  "DEFAULT_MAX_WIDTH = 120"

definition HEADER_LINES :: nat where
  "HEADER_LINES = 20"

definition MAX_INHERIT_EDGES :: nat where
  "MAX_INHERIT_EDGES = 6"

text \<open>The truncation marker, U+2026 (horizontal ellipsis), one code point.\<close>

definition ELLIPSIS :: nat where
  "ELLIPSIS = 8230"

section \<open>Truncation\<close>

definition truncate_s :: "ustr \<Rightarrow> int \<Rightarrow> ustr" where
  "truncate_s s0 max_width =
     (let s = collapse_ws (strip s0) in
      if int (length s) \<le> max_width then s
      else if max_width \<le> 1 then slice_to max_width s
      else rstrip (slice_to (max_width - 1) s) @ [ELLIPSIS])"

section \<open>Comment styles\<close>

record CommentStyle =
  kind :: ustr
  line_prefix :: ustr
  block_start :: ustr
  block_line_prefix :: ustr
  block_end :: ustr
  docstring_quote :: ustr

definition line_style :: "string \<Rightarrow> CommentStyle" where
  "line_style p = \<lparr>kind = u ''line'', line_prefix = u p, block_start = [],
     block_line_prefix = [], block_end = [], docstring_quote = []\<rparr>"

definition block_style :: "string \<Rightarrow> string \<Rightarrow> string \<Rightarrow> CommentStyle" where
  "block_style s p e = \<lparr>kind = u ''block'', line_prefix = [], block_start = u s,
     block_line_prefix = u p, block_end = u e, docstring_quote = []\<rparr>"

definition hash_suffixes :: "string list" where
  "hash_suffixes = [''.py'', ''.pyi'', ''.sh'', ''.bash'', ''.zsh'', ''.fish'', ''.ps1'',
     ''.rb'', ''.yml'', ''.yaml'']"

definition dash_suffixes :: "string list" where
  "dash_suffixes = [''.sql'', ''.lua'']"

definition c_block_suffixes :: "string list" where
  "c_block_suffixes = [''.c'', ''.h'', ''.cc'', ''.cpp'', ''.hpp'', ''.cs'', ''.java'',
     ''.kt'', ''.swift'', ''.js'', ''.jsx'', ''.ts'', ''.tsx'', ''.go'', ''.rs'', ''.php'',
     ''.css'', ''.scss'', ''.less'']"

definition html_suffixes :: "string list" where
  "html_suffixes = [''.html'', ''.htm'', ''.xml'', ''.vue'']"

definition COMMENT_STYLES_BY_SUFFIX :: "string \<Rightarrow> CommentStyle option" where
  "COMMENT_STYLES_BY_SUFFIX sfx =
     (if sfx \<in> set hash_suffixes then Some (line_style ''# '')
      else if sfx \<in> set dash_suffixes then Some (line_style ''-- '')
      else if sfx \<in> set c_block_suffixes then Some (block_style ''/*'' '' * '' '' */'')
      else if sfx \<in> set html_suffixes then Some (block_style ''<!--'' ''  '' ''-->'')
      else None)"

definition SKIP_SUFFIXES :: "string list" where
  "SKIP_SUFFIXES = [''.json'', ''.lock'', ''.png'', ''.jpg'', ''.jpeg'', ''.gif'', ''.webp'',
     ''.ico'', ''.pdf'', ''.zip'', ''.gz'', ''.bz2'', ''.xz'', ''.7z'', ''.jar'', ''.class'',
     ''.wasm'']"

text \<open>The argument is \<open>path.suffix.lower()\<close>.\<close>

definition detect_comment_style :: "string \<Rightarrow> CommentStyle option" where
  "detect_comment_style sfx =
     (if sfx \<in> set SKIP_SUFFIXES then None else COMMENT_STYLES_BY_SUFFIX sfx)"

section \<open>Header rendering\<close>

text \<open>The block branch first brings the field list to exactly 20 entries.\<close>

definition block_fields :: "ustr list \<Rightarrow> ustr list" where
  "block_fields fields0 =
     (let fields1 = (if length fields0 > HEADER_LINES
                     then take (HEADER_LINES - 1) fields0 @ [last fields0] else fields0)
      in if length fields1 < HEADER_LINES
         then butlast fields1 @ replicate (HEADER_LINES - length fields1) []
              @ (if fields1 = [] then [] else [last fields1])
         else fields1)"

text \<open>The loop \<open>while len(rendered) < HEADER_LINES: rendered.append(pad)\<close>.\<close>

function pad_rendered :: "ustr \<Rightarrow> ustr list \<Rightarrow> ustr list" where
  "pad_rendered pad rendered =
     (if length rendered < HEADER_LINES then pad_rendered pad (rendered @ [pad]) else rendered)"
  by pat_completeness auto
termination
  by (relation "measure (\<lambda>(pad, rendered). HEADER_LINES - length rendered)") auto

declare pad_rendered.simps [simp del]

definition render_header_lines :: "CommentStyle \<Rightarrow> ustr list \<Rightarrow> int \<Rightarrow> ustr list" where
  "render_header_lines style fields0 max_width =
     (if kind style = u ''block'' then
        (let fields = block_fields fields0 in
         [block_start style @ u '' '' @ truncate_s (hd fields) max_width]
         @ map (\<lambda>f. block_line_prefix style @ truncate_s f max_width) (butlast (tl fields))
         @ [block_line_prefix style @ truncate_s (last fields) max_width
            @ u '' '' @ block_end style])
      else
        (let rendered = map (\<lambda>f. line_prefix style @ truncate_s f max_width) fields0;
             rendered = (if length rendered > HEADER_LINES
                         then take HEADER_LINES rendered else rendered)
         in pad_rendered (rstrip (line_prefix style)) rendered))"

section \<open>Regular expressions\<close>

text \<open>
  The patterns of the source are written as terms of a small regular-expression type and
  run by a backtracking matcher with the semantics of Python's \<open>re\<close>: alternatives are
  tried left to right, repetitions are greedy, and the first successful path gives the
  groups. Every repetition in the source's patterns ranges over a single character class,
  so \<open>Star\<close> and \<open>Plus\<close> take a class.

  The class \<open>\w\<close> consults the Unicode database through \<open>str.isalnum\<close>. The database is
  not part of the repository: its answer for the code points from 128 on is the
  parameter \<open>ua\<close> of every function that matches \<open>\w\<close> or \<open>\b\<close>.
\<close>

datatype re =
    Lit ustr
  | Cls "nat \<Rightarrow> bool"
  | Star "nat \<Rightarrow> bool"
  | Plus "nat \<Rightarrow> bool"
  | Opt re
  | Seq re re
  | Alt re re
  | Grp nat re
  | WordB "nat \<Rightarrow> bool"
  | Bol
  | Eol

text \<open>A matcher state: the consumed text (reversed), the remaining text, and the groups
  captured so far.\<close>

type_synonym mstate = "ustr \<times> ustr \<times> (nat \<times> ustr) list"

fun star_greedy :: "(nat \<Rightarrow> bool) \<Rightarrow> (mstate \<Rightarrow> 'r option) \<Rightarrow> ustr \<Rightarrow> ustr
    \<Rightarrow> (nat \<times> ustr) list \<Rightarrow> 'r option" where
  "star_greedy P k b [] g = k (b, [], g)"
| "star_greedy P k b (c # cs) g =
     (if P c then (case star_greedy P k (c # b) cs g of
                     Some r \<Rightarrow> Some r
                   | None \<Rightarrow> k (b, c # cs, g))
      else k (b, c # cs, g))"

fun rmatch :: "re \<Rightarrow> (mstate \<Rightarrow> 'r option) \<Rightarrow> mstate \<Rightarrow> 'r option" where
  "rmatch (Lit l) k (b, s, g) =
     (if prefix l s then k (rev l @ b, drop (length l) s, g) else None)"
| "rmatch (Cls P) k (b, s, g) =
     (case s of [] \<Rightarrow> None | c # cs \<Rightarrow> if P c then k (c # b, cs, g) else None)"
| "rmatch (Star P) k (b, s, g) = star_greedy P k b s g"
| "rmatch (Plus P) k (b, s, g) =
     (case s of [] \<Rightarrow> None | c # cs \<Rightarrow> if P c then star_greedy P k (c # b) cs g else None)"
| "rmatch (Opt r) k st =
     (case rmatch r k st of Some x \<Rightarrow> Some x | None \<Rightarrow> k st)"
| "rmatch (Seq r1 r2) k st = rmatch r1 (\<lambda>st'. rmatch r2 k st') st"
| "rmatch (Alt r1 r2) k st =
     (case rmatch r1 k st of Some x \<Rightarrow> Some x | None \<Rightarrow> rmatch r2 k st)"
| "rmatch (Grp n r) k (b, s, g) =
     rmatch r (\<lambda>(b', s', g'). k (b', s', (n, take (length s - length s') s) # g')) (b, s, g)"
| "rmatch (WordB W) k (b, s, g) =
     (if (b \<noteq> [] \<and> W (hd b)) \<noteq> (s \<noteq> [] \<and> W (hd s)) then k (b, s, g) else None)"
| "rmatch Bol k (b, s, g) = (if b = [] then k (b, s, g) else None)"
| "rmatch Eol k (b, s, g) = (if s = [] \<or> s = [10] then k (b, s, g) else None)"

fun seq :: "re list \<Rightarrow> re" where
  "seq [] = Lit []"
| "seq [r] = r"
| "seq (r # rs) = Seq r (seq rs)"

text \<open>\<open>re.match(r, s)\<close>: the groups of the first successful path from position 0, and the
  text left after the match.\<close>

definition re_match :: "re \<Rightarrow> ustr \<Rightarrow> ((nat \<times> ustr) list \<times> ustr) option" where
  "re_match r s = rmatch r (\<lambda>(b, s', g). Some (g, s')) ([], s, [])"

definition matches :: "re \<Rightarrow> ustr \<Rightarrow> bool" where
  "matches r s = (re_match r s \<noteq> None)"

text \<open>\<open>m.group(n)\<close>, \<open>None\<close> for a group that took no part in the match.\<close>

definition group :: "(nat \<times> ustr) list \<Rightarrow> nat \<Rightarrow> ustr option" where
  "group g n = map_of g n"

text \<open>\<open>re.match(r, s)\<close> followed by \<open>m.group(n)\<close>, for a group every match sets.\<close>

definition match_group :: "re \<Rightarrow> nat \<Rightarrow> ustr \<Rightarrow> ustr option" where
  "match_group r n s = (case re_match r s of None \<Rightarrow> None | Some (g, _) \<Rightarrow> group g n)"

subsection \<open>Character classes\<close>

definition lower :: "nat \<Rightarrow> bool" where "lower c \<longleftrightarrow> 97 \<le> c \<and> c \<le> 122"
definition upper :: "nat \<Rightarrow> bool" where "upper c \<longleftrightarrow> 65 \<le> c \<and> c \<le> 90"
definition digit :: "nat \<Rightarrow> bool" where "digit c \<longleftrightarrow> 48 \<le> c \<and> c \<le> 57"

text \<open>\<open>\w\<close>.\<close>

definition word :: "(nat \<Rightarrow> bool) \<Rightarrow> nat \<Rightarrow> bool" where
  "word ua c \<longleftrightarrow> (if c < 128 then lower c \<or> upper c \<or> digit c \<or> c = 95 else ua c)"

text \<open>\<open>[A-Za-z_]\<close> and \<open>[A-Za-z_$]\<close>.\<close>

definition id_start :: "nat \<Rightarrow> bool" where
  "id_start c \<longleftrightarrow> lower c \<or> upper c \<or> c = 95"

definition js_id_start :: "nat \<Rightarrow> bool" where
  "js_id_start c \<longleftrightarrow> lower c \<or> upper c \<or> c = 95 \<or> c = 36"

text \<open>\<open>[\w$]\<close>.\<close>

definition js_word :: "(nat \<Rightarrow> bool) \<Rightarrow> nat \<Rightarrow> bool" where
  "js_word ua c \<longleftrightarrow> word ua c \<or> c = 36"

text \<open>\<open>.\<close> (without the DOTALL flag).\<close>

definition dot :: "nat \<Rightarrow> bool" where
  "dot c \<longleftrightarrow> c \<noteq> 10"

definition one_of :: "string \<Rightarrow> nat \<Rightarrow> bool" where
  "one_of cs c \<longleftrightarrow> c \<in> set (u cs)"

text \<open>Decimal digits of a natural number, as \<open>str(n)\<close> and the f-strings print it.\<close>

function str_nat :: "nat \<Rightarrow> ustr" where
  "str_nat n = (if n < 10 then [48 + n] else str_nat (n div 10) @ [48 + n mod 10])"
  by pat_completeness auto
termination
  by (relation "measure id") auto

declare str_nat.simps [simp del]

section \<open>Prolog splitting\<close>

definition NL :: ustr where
  "NL = [10]"

text \<open>\<open>^#.*coding[:=]\s*[-\w.]+\<close>\<close>

definition RE_CODING :: "(nat \<Rightarrow> bool) \<Rightarrow> re" where
  "RE_CODING ua = seq [Bol, Lit (u ''#''), Star dot, Lit (u ''coding''), Cls (one_of '':=''),
     Star isspace, Plus (\<lambda>c. c = 45 \<or> word ua c \<or> c = 46)]"

text \<open>
  The splitter keeps a list \<open>prolog\<close> and an index \<open>i\<close> into \<open>lines\<close>. The model keeps
  \<open>prolog\<close> and the lines from \<open>i\<close> on. \<open>consume1 P\<close> is the step
  \<open>if i < len(lines) and P(lines[i]): prolog.append(lines[i]); i += 1\<close>, and
  \<open>consume_while P\<close> is the same step as a \<open>while\<close> loop.
\<close>

fun consume1 :: "(ustr \<Rightarrow> bool) \<Rightarrow> ustr list \<times> ustr list \<Rightarrow> ustr list \<times> ustr list" where
  "consume1 P (p, []) = (p, [])"
| "consume1 P (p, l # r) = (if P l then (p @ [l], r) else (p, l # r))"

fun consume_while :: "(ustr \<Rightarrow> bool) \<Rightarrow> ustr list \<times> ustr list \<Rightarrow> ustr list \<times> ustr list" where
  "consume_while P (p, []) = (p, [])"
| "consume_while P (p, l # r) = (if P l then consume_while P (p @ [l], r) else (p, l # r))"

definition is_build_tag :: "ustr \<Rightarrow> bool" where
  "is_build_tag l \<longleftrightarrow> startswith l (u ''//go:build'') \<or> startswith l (u ''// +build'')"

definition is_inner_attr :: "ustr \<Rightarrow> bool" where
  "is_inner_attr l \<longleftrightarrow> startswith (lstrip l) (u ''#!['')"

definition is_blank :: "ustr \<Rightarrow> bool" where
  "is_blank l \<longleftrightarrow> strip l = []"

text \<open>Go build tags: the consecutive tag lines, then the blank line after them, or a
  synthesized \<open>"\n"\<close> when the next line is not blank.\<close>

definition go_build_tags :: "ustr list \<times> ustr list \<Rightarrow> ustr list \<times> ustr list" where
  "go_build_tags st =
     (case snd st of
        [] \<Rightarrow> st
      | l # _ \<Rightarrow>
          if is_build_tag l then
            (let (p, r) = consume_while is_build_tag st in
             case r of
               [] \<Rightarrow> (p @ [NL], r)
             | l' # r' \<Rightarrow> if is_blank l' then (p @ [l'], r') else (p @ [NL], r))
          else st)"

text \<open>Rust inner attributes: the consecutive attribute lines, then one blank line if
  there is one.\<close>

definition rust_inner_attrs :: "ustr list \<times> ustr list \<Rightarrow> ustr list \<times> ustr list" where
  "rust_inner_attrs st =
     (case snd st of
        [] \<Rightarrow> st
      | l # _ \<Rightarrow>
          if is_inner_attr l then consume1 is_blank (consume_while is_inner_attr st)
          else st)"

definition split_prolog :: "(nat \<Rightarrow> bool) \<Rightarrow> ustr list \<Rightarrow> string \<Rightarrow> ustr list \<times> ustr list" where
  "split_prolog ua lines sfx =
     (if lines = [] then ([], [])
      else
        let st = consume1 (\<lambda>l. startswith l (u ''#!'')) ([], lines);
            st = consume1 (\<lambda>l. startswith (lstrip l) (u ''<?xml'')) st;
            st = (if sfx \<in> {''.py'', ''.pyi''} then consume1 (matches (RE_CODING ua)) st else st);
            st = go_build_tags st
        in rust_inner_attrs st)"

section \<open>Locating an existing header\<close>

datatype error = ValueError ustr

text \<open>The messages of the two errors. Only the second one contains the path.\<close>

definition msg_short :: ustr where
  "msg_short = u ''found '' @ CODEX_MARKER @ u '' but file is shorter than ''
     @ str_nat HEADER_LINES @ u '' lines''"

definition msg_misplaced :: "ustr \<Rightarrow> ustr" where
  "msg_misplaced path = u ''found '' @ CODEX_MARKER
     @ u '' near top but header is not the first '' @ str_nat HEADER_LINES @ u '' lines; ''
     @ u ''manually normalize the header in '' @ path"

definition split_existing_codex_header ::
    "ustr list \<Rightarrow> ustr \<Rightarrow> error + (ustr list option \<times> ustr list \<times> bool)" where
  "split_existing_codex_header rest path =
     (let max_scan = min (length rest) 60;
          scan_lines = take max_scan rest;
          scan = concat scan_lines
      in if \<not> contains CODEX_MARKER scan then Inr (None, rest, False)
         else if length rest < HEADER_LINES then Inl (ValueError msg_short)
         else if list_ex (\<lambda>ln. contains CODEX_MARKER ln) (take HEADER_LINES rest)
           then Inr (Some (take HEADER_LINES rest), drop HEADER_LINES rest, True)
         else Inl (ValueError (msg_misplaced path)))"

section \<open>Lines of a file\<close>

text \<open>The line boundaries of \<open>str.splitlines\<close>, apart from the pair \<open>\r\n\<close>.\<close>

definition linebreak :: "nat \<Rightarrow> bool" where
  "linebreak c \<longleftrightarrow> c = 10 \<or> c = 11 \<or> c = 12 \<or> c = 13 \<or> c = 28 \<or> c = 29 \<or> c = 30
     \<or> c = 133 \<or> c = 8232 \<or> c = 8233"

text \<open>\<open>raw.splitlines(keepends=True)\<close>; the first argument is the current line, reversed.\<close>

fun splitlines_acc :: "ustr \<Rightarrow> ustr \<Rightarrow> ustr list" where
  "splitlines_acc acc [] = (if acc = [] then [] else [rev acc])"
| "splitlines_acc acc [c] = [rev (c # acc)]"
| "splitlines_acc acc (c # d # cs) =
     (if c = 13 \<and> d = 10 then rev (d # c # acc) # splitlines_acc [] cs
      else if linebreak c then rev (c # acc) # splitlines_acc [] (d # cs)
      else splitlines_acc (c # acc) (d # cs))"

definition splitlines_keepends :: "ustr \<Rightarrow> ustr list" where
  "splitlines_keepends raw = splitlines_acc [] raw"

text \<open>\<open>content.splitlines()\<close>: the same lines without their line boundary.\<close>

definition chop_linebreak :: "ustr \<Rightarrow> ustr" where
  "chop_linebreak l =
     (if suffix [13, 10] l then take (length l - 2) l
      else if l \<noteq> [] \<and> linebreak (last l) then butlast l
      else l)"

definition splitlines :: "ustr \<Rightarrow> ustr list" where
  "splitlines raw = map chop_linebreak (splitlines_keepends raw)"

section \<open>Reading an existing header\<close>

definition HEADER_FIELD_PREFIXES :: "ustr list" where
  "HEADER_FIELD_PREFIXES = map u [''Path:'', ''Purpose:'', ''Key types:'', ''Inheritance:'',
     ''Key funcs:'', ''Entrypoints:'', ''Public API:'', ''Inputs/Outputs:'', ''Core flow:'',
     ''Dependencies:'', ''Error handling:'', ''Config/env:'', ''Side effects:'',
     ''Performance:'', ''Security:'', ''Tests:'', ''Known issues:'', ''Index:'',
     ''Last update:'']"

text \<open>A literal out of a list, first alternative first.\<close>

fun alts :: "string list \<Rightarrow> re" where
  "alts [] = Lit []"
| "alts [a] = Lit (u a)"
| "alts (a # as) = Alt (Lit (u a)) (alts as)"

text \<open>\<open>^\s*(?:/\*+|<!--)?\s*(?:\*+\s*)?(?:#|//|--)?\s*\<close>\<close>

definition RE_HEADER_PREFIX :: re where
  "RE_HEADER_PREFIX = seq [Bol, Star isspace,
     Opt (Alt (Seq (Lit (u ''/'')) (Plus (one_of ''*''))) (Lit (u ''<!--''))),
     Star isspace,
     Opt (Seq (Plus (one_of ''*'')) (Star isspace)),
     Opt (alts [''#'', ''//'', ''--'']),
     Star isspace]"

text \<open>\<open>\s*(?:\*/|-->)\s*$\<close>\<close>

definition RE_HEADER_SUFFIX :: re where
  "RE_HEADER_SUFFIX = seq [Star isspace, alts [''*/'', ''-->''], Star isspace, Eol]"

text \<open>
  \<open>pattern.sub("", s)\<close>: scanning from the left, every match that is not empty is
  deleted and the scan goes on after it; where the pattern does not match, or matches
  the empty string, the character is kept. The second argument is the text before the
  scan position, reversed.
\<close>

function del_matches :: "re \<Rightarrow> ustr \<Rightarrow> ustr \<Rightarrow> ustr" where
  "del_matches r b s =
     (case rmatch r (\<lambda>(b', s', g). Some (b', s')) (b, s, []) of
        Some (b', s') \<Rightarrow>
          if length s' < length s then del_matches r b' s'
          else (case s of [] \<Rightarrow> [] | c # cs \<Rightarrow> c # del_matches r (c # b) cs)
      | None \<Rightarrow> (case s of [] \<Rightarrow> [] | c # cs \<Rightarrow> c # del_matches r (c # b) cs))"
  by pat_completeness auto
termination
  by (relation "measure (\<lambda>(r, b, s). length s)") auto

declare del_matches.simps [simp del]

definition re_sub_empty :: "re \<Rightarrow> ustr \<Rightarrow> ustr" where
  "re_sub_empty r s = del_matches r [] s"

definition strip_header_comment_syntax :: "ustr \<Rightarrow> ustr" where
  "strip_header_comment_syntax line =
     (let s = rstrip_chars [13] (rstrip_chars [10] line);
          s = re_sub_empty RE_HEADER_SUFFIX s;
          s = re_sub_empty RE_HEADER_PREFIX s
      in strip s)"

text \<open>The inner loop over the prefixes: the first prefix that the line starts with.\<close>

fun first_prefix :: "ustr list \<Rightarrow> ustr \<Rightarrow> ustr option" where
  "first_prefix [] clean = None"
| "first_prefix (p # ps) clean = (if startswith clean p then Some p else first_prefix ps clean)"

text \<open>The dictionary of fields, a later line of the header overwriting an earlier one.\<close>

fun parse_fields_loop :: "ustr list \<Rightarrow> (ustr \<rightharpoonup> ustr) \<Rightarrow> (ustr \<rightharpoonup> ustr)" where
  "parse_fields_loop [] flds = flds"
| "parse_fields_loop (ln # lns) flds =
     (let clean = strip_header_comment_syntax ln in
      case first_prefix HEADER_FIELD_PREFIXES clean of
        None \<Rightarrow> parse_fields_loop lns flds
      | Some p \<Rightarrow>
          parse_fields_loop lns
            (flds(butlast p \<mapsto> strip (drop (length p) clean))))"

definition parse_existing_header_fields :: "ustr list \<Rightarrow> (ustr \<rightharpoonup> ustr)" where
  "parse_existing_header_fields header_lines = parse_fields_loop header_lines Map.empty"

definition is_placeholder :: "ustr option \<Rightarrow> bool" where
  "is_placeholder value =
     (case value of
        None \<Rightarrow> True
      | Some v0 \<Rightarrow>
          (let v = strip v0 in
           if v = [] then True
           else if v = u ''TODO'' then True
           else if startswith v (u ''TODO '') then True
           else if startswith v (u ''TODO:'') then True
           else if startswith v (u ''TODO;'') then True
           else False))"

section \<open>The module docstring of a Python file\<close>

text \<open>\<open>s.find(sub)\<close> for an occurrence that exists, and the non-overlapping count
  \<open>s.count(sub)\<close> of a non-empty \<open>sub\<close>.\<close>

fun find_sub :: "ustr \<Rightarrow> ustr \<Rightarrow> nat option" where
  "find_sub sub [] = (if sub = [] then Some 0 else None)"
| "find_sub sub (c # cs) =
     (if prefix sub (c # cs) then Some 0 else map_option Suc (find_sub sub cs))"

function count_sub :: "ustr \<Rightarrow> ustr \<Rightarrow> nat" where
  "count_sub sub s =
     (if sub = [] then Suc (length s)
      else case s of
        [] \<Rightarrow> 0
      | c # cs \<Rightarrow> if prefix sub s then Suc (count_sub sub (drop (length sub) s))
                  else count_sub sub cs)"
  by pat_completeness auto
termination
  by (relation "measure (\<lambda>(sub, s). length s)") auto

declare count_sub.simps [simp del]

text \<open>\<open>s.split(sep, 1)\<close> as the pair of the text before the first \<open>sep\<close> and the text after
  it; without an occurrence the whole text comes first and there is no second part.\<close>

definition split1 :: "ustr \<Rightarrow> ustr \<Rightarrow> ustr \<times> ustr option" where
  "split1 sep s =
     (case find_sub sep s of
        None \<Rightarrow> (s, None)
      | Some i \<Rightarrow> (take i s, Some (drop (i + length sep) s)))"

text \<open>The loop over the lines after the opening line of a multi-line docstring.\<close>

fun docstring_loop :: "ustr \<Rightarrow> ustr list \<Rightarrow> ustr list \<Rightarrow> ustr option" where
  "docstring_loop quote collected [] = None"
| "docstring_loop quote collected (ln # lns) =
     (if contains quote ln then Some (truncate_s (join NL collected) 300)
      else docstring_loop quote (collected @ [rstrip_chars [10] ln]) lns)"

definition peek_py_module_docstring :: "ustr list \<Rightarrow> ustr option" where
  "peek_py_module_docstring lines =
     (case dropWhile is_blank lines of
        [] \<Rightarrow> None
      | l # after \<Rightarrow>
          (let opener = lstrip l;
               quote = (if startswith opener (u [CHR 0x22, CHR 0x22, CHR 0x22])
                        then Some (u [CHR 0x22, CHR 0x22, CHR 0x22])
                        else if startswith opener (u [CHR 0x27, CHR 0x27, CHR 0x27])
                        then Some (u [CHR 0x27, CHR 0x27, CHR 0x27])
                        else None)
           in case quote of
                None \<Rightarrow> None
              | Some q \<Rightarrow>
                  if count_sub q opener \<ge> 2 \<and> strip opener \<noteq> q
                  then (case snd (split1 q opener) of
                          None \<Rightarrow> None
                        | Some t \<Rightarrow> Some (truncate_s (fst (split1 q t)) 300))
                  else docstring_loop q [] (take 1999 after)))"

section \<open>Symbol extraction\<close>

definition ws0 :: re where "ws0 = Star isspace"
definition ws1 :: re where "ws1 = Plus isspace"

text \<open>\<open>[A-Za-z_]\w*\<close> and \<open>[A-Za-z_$][\w$]*\<close>.\<close>

definition ident :: "(nat \<Rightarrow> bool) \<Rightarrow> re" where
  "ident ua = Seq (Cls id_start) (Star (word ua))"

definition js_ident :: "(nat \<Rightarrow> bool) \<Rightarrow> re" where
  "js_ident ua = Seq (Cls js_id_start) (Star (js_word ua))"

definition wb :: "(nat \<Rightarrow> bool) \<Rightarrow> re" where
  "wb ua = WordB (word ua)"

definition kw :: "string \<Rightarrow> re" where
  "kw s = Lit (u s)"

text \<open>\<open>^\s*def\s+([A-Za-z_]\w*)\s*\(\<close>\<close>

definition RE_PY_DEF :: "(nat \<Rightarrow> bool) \<Rightarrow> re" where
  "RE_PY_DEF ua = seq [Bol, ws0, kw ''def'', ws1, Grp 1 (ident ua), ws0, kw ''('']"

text \<open>\<open>^\s*class\s+([A-Za-z_]\w*)\s*[\(:]\<close>\<close>

definition RE_PY_CLASS :: "(nat \<Rightarrow> bool) \<Rightarrow> re" where
  "RE_PY_CLASS ua = seq [Bol, ws0, kw ''class'', ws1, Grp 1 (ident ua), ws0, Cls (one_of ''(:'')]"

text \<open>\<open>^\s*class\s+([A-Za-z_]\w*)\s*\(([^)]*)\)\s*:\<close>\<close>

definition RE_PY_INHERIT :: "(nat \<Rightarrow> bool) \<Rightarrow> re" where
  "RE_PY_INHERIT ua = seq [Bol, ws0, kw ''class'', ws1, Grp 1 (ident ua), ws0, kw ''('',
     Grp 2 (Star (\<lambda>c. c \<noteq> 41)), kw '')'', ws0, kw '':'']"

text \<open>\<open>^\s*export\s+default\s+class\s+([A-Za-z_$][\w$]*)\b|^\s*export\s+class\s+([A-Za-z_$][\w$]*)\b|^\s*class\s+([A-Za-z_$][\w$]*)\b\<close>\<close>

definition RE_JS_CLASS :: "(nat \<Rightarrow> bool) \<Rightarrow> re" where
  "RE_JS_CLASS ua =
     Alt (seq [Bol, ws0, kw ''export'', ws1, kw ''default'', ws1, kw ''class'', ws1,
               Grp 1 (js_ident ua), wb ua])
    (Alt (seq [Bol, ws0, kw ''export'', ws1, kw ''class'', ws1, Grp 2 (js_ident ua), wb ua])
         (seq [Bol, ws0, kw ''class'', ws1, Grp 3 (js_ident ua), wb ua]))"

text \<open>The prefix \<open>^\s*(?:export\s+)?(?:default\s+)?(?:abstract\s+)?class\s+\<close> of three patterns.\<close>

definition ts_class_head :: "re list" where
  "ts_class_head = [Bol, ws0, Opt (Seq (kw ''export'') ws1), Opt (Seq (kw ''default'') ws1),
     Opt (Seq (kw ''abstract'') ws1), kw ''class'', ws1]"

text \<open>\<open>^\s*(?:export\s+)?(?:default\s+)?(?:abstract\s+)?class\s+([A-Za-z_$][\w$]*)\s+extends\s+([A-Za-z_$][\w$]*)\<close>\<close>

definition RE_JS_INHERIT :: "(nat \<Rightarrow> bool) \<Rightarrow> re" where
  "RE_JS_INHERIT ua = seq (ts_class_head @ [Grp 1 (js_ident ua), ws1, kw ''extends'', ws1,
     Grp 2 (js_ident ua)])"

text \<open>\<open>^\s*(?:export\s+)?(?:default\s+)?(?:abstract\s+)?class\s+([A-Za-z_$][\w$]*)\b\<close>\<close>

definition RE_TS_CLASS :: "(nat \<Rightarrow> bool) \<Rightarrow> re" where
  "RE_TS_CLASS ua = seq (ts_class_head @ [Grp 1 (js_ident ua), wb ua])"

text \<open>\<open>^\s*(?:export\s+)?interface\s+([A-Za-z_$][\w$]*)\b\<close>, and the same with \<open>enum\<close> and
  \<open>type\<close>.\<close>

definition ts_decl :: "(nat \<Rightarrow> bool) \<Rightarrow> string \<Rightarrow> re" where
  "ts_decl ua k = seq [Bol, ws0, Opt (Seq (kw ''export'') ws1), kw k, ws1,
     Grp 1 (js_ident ua), wb ua]"

definition RE_TS_INTERFACE :: "(nat \<Rightarrow> bool) \<Rightarrow> re" where
  "RE_TS_INTERFACE ua = ts_decl ua ''interface''"

definition RE_TS_ENUM :: "(nat \<Rightarrow> bool) \<Rightarrow> re" where
  "RE_TS_ENUM ua = ts_decl ua ''enum''"

definition RE_TS_TYPE_ALIAS :: "(nat \<Rightarrow> bool) \<Rightarrow> re" where
  "RE_TS_TYPE_ALIAS ua = ts_decl ua ''type''"

text \<open>\<open>^\s*(?:export\s+)?(?:default\s+)?(?:abstract\s+)?class\s+([A-Za-z_$][\w$]*)\b(?:\s+extends\s+[A-Za-z_$][\w$]*)?\s+implements\s+([^{]+)\<close>\<close>

definition RE_TS_IMPLEMENTS :: "(nat \<Rightarrow> bool) \<Rightarrow> re" where
  "RE_TS_IMPLEMENTS ua = seq (ts_class_head @ [Grp 1 (js_ident ua), wb ua,
     Opt (seq [ws1, kw ''extends'', ws1, js_ident ua]), ws1, kw ''implements'', ws1,
     Grp 2 (Plus (\<lambda>c. c \<noteq> 123))])"

text \<open>\<open>^\s*export\s+function\s+([A-Za-z_$][\w$]*)\s*\(|^\s*function\s+([A-Za-z_$][\w$]*)\s*\(|^\s*export\s+const\s+([A-Za-z_$][\w$]*)\s*=\s*\(|^\s*const\s+([A-Za-z_$][\w$]*)\s*=\s*\(\<close>\<close>

definition RE_JS_FN :: "(nat \<Rightarrow> bool) \<Rightarrow> re" where
  "RE_JS_FN ua =
     Alt (seq [Bol, ws0, kw ''export'', ws1, kw ''function'', ws1, Grp 1 (js_ident ua), ws0,
               kw ''(''])
    (Alt (seq [Bol, ws0, kw ''function'', ws1, Grp 2 (js_ident ua), ws0, kw ''(''])
    (Alt (seq [Bol, ws0, kw ''export'', ws1, kw ''const'', ws1, Grp 3 (js_ident ua), ws0,
               kw ''='', ws0, kw ''(''])
         (seq [Bol, ws0, kw ''const'', ws1, Grp 4 (js_ident ua), ws0, kw ''='', ws0,
               kw ''(''])))"

text \<open>\<open>^\s*type\s+([A-Za-z_]\w*)\s+(struct|interface)\b\<close>\<close>

definition RE_GO_TYPE :: "(nat \<Rightarrow> bool) \<Rightarrow> re" where
  "RE_GO_TYPE ua = seq [Bol, ws0, kw ''type'', ws1, Grp 1 (ident ua), ws1,
     Grp 2 (alts [''struct'', ''interface'']), wb ua]"

text \<open>\<open>^\s*func\s+\(?[A-Za-z_*\w]*\)?\s*([A-Za-z_]\w*)\s*\(\<close>\<close>

definition RE_GO_FUNC :: "(nat \<Rightarrow> bool) \<Rightarrow> re" where
  "RE_GO_FUNC ua = seq [Bol, ws0, kw ''func'', ws1, Opt (kw ''(''),
     Star (\<lambda>c. id_start c \<or> c = 42 \<or> word ua c), Opt (kw '')''), ws0, Grp 1 (ident ua), ws0,
     kw ''('']"

text \<open>\<open>^\s*(?:pub\s+)?(struct|enum|trait)\s+([A-Za-z_]\w*)\b\<close>\<close>

definition RE_RS_ITEM :: "(nat \<Rightarrow> bool) \<Rightarrow> re" where
  "RE_RS_ITEM ua = seq [Bol, ws0, Opt (Seq (kw ''pub'') ws1),
     Grp 1 (alts [''struct'', ''enum'', ''trait'']), ws1, Grp 2 (ident ua), wb ua]"

text \<open>\<open>^\s*(?:pub\s+)?fn\s+([A-Za-z_]\w*)\s*\(\<close>\<close>

definition RE_RS_FN :: "(nat \<Rightarrow> bool) \<Rightarrow> re" where
  "RE_RS_FN ua = seq [Bol, ws0, Opt (Seq (kw ''pub'') ws1), kw ''fn'', ws1, Grp 1 (ident ua),
     ws0, kw ''('']"

text \<open>\<open>^\s*impl\s+(?:<[^>]+>\s+)?([A-Za-z_]\w*)\s+for\s+([A-Za-z_]\w*)\b\<close>\<close>

definition RE_RS_IMPL_FOR :: "(nat \<Rightarrow> bool) \<Rightarrow> re" where
  "RE_RS_IMPL_FOR ua = seq [Bol, ws0, kw ''impl'', ws1,
     Opt (seq [kw ''<'', Plus (\<lambda>c. c \<noteq> 62), kw ''>'', ws1]),
     Grp 1 (ident ua), ws1, kw ''for'', ws1, Grp 2 (ident ua), wb ua]"

text \<open>The modifiers \<open>^\s*(?:public|protected|private)?\s*(?:abstract|final)?\s*\<close> of the Java
  patterns, and the ones of the C# and Kotlin patterns.\<close>

definition java_head :: "re list" where
  "java_head = [Bol, ws0, Opt (alts [''public'', ''protected'', ''private'']), ws0,
     Opt (alts [''abstract'', ''final'']), ws0]"

definition cs_head :: "re list" where
  "cs_head = [Bol, ws0, Opt (alts [''public'', ''protected'', ''private'', ''internal'']), ws0,
     Opt (alts [''abstract'', ''sealed'', ''static'', ''partial'']), ws0]"

definition kt_head :: "re list" where
  "kt_head = [Bol, ws0, Opt (alts [''public'', ''protected'', ''private'', ''internal'']), ws0,
     Opt (alts [''open'', ''abstract'', ''sealed'', ''data'']), ws0]"

text \<open>\<open>^\s*(?:public|protected|private)?\s*(?:abstract|final)?\s*(class|interface|enum)\s+([A-Za-z_]\w*)\b\<close>\<close>

definition RE_JAVA_TYPE :: "(nat \<Rightarrow> bool) \<Rightarrow> re" where
  "RE_JAVA_TYPE ua = seq (java_head @ [Grp 1 (alts [''class'', ''interface'', ''enum'']), ws1,
     Grp 2 (ident ua), wb ua])"

text \<open>\<open>^\s*(?:public|protected|private)?\s*(?:abstract|final)?\s*class\s+([A-Za-z_]\w*)\s+extends\s+([A-Za-z_]\w*)\b\<close>\<close>

definition RE_JAVA_INHERIT :: "(nat \<Rightarrow> bool) \<Rightarrow> re" where
  "RE_JAVA_INHERIT ua = seq (java_head @ [kw ''class'', ws1, Grp 1 (ident ua), ws1,
     kw ''extends'', ws1, Grp 2 (ident ua), wb ua])"

text \<open>\<open>^\s*(?:public|protected|private)?\s*(?:abstract|final)?\s*class\s+([A-Za-z_]\w*)\b(?:\s+extends\s+[A-Za-z_]\w*)?\s+implements\s+([^{]+)\<close>\<close>

definition RE_JAVA_IMPLEMENTS :: "(nat \<Rightarrow> bool) \<Rightarrow> re" where
  "RE_JAVA_IMPLEMENTS ua = seq (java_head @ [kw ''class'', ws1, Grp 1 (ident ua), wb ua,
     Opt (seq [ws1, kw ''extends'', ws1, ident ua]), ws1, kw ''implements'', ws1,
     Grp 2 (Plus (\<lambda>c. c \<noteq> 123))])"

text \<open>\<open>^\s*(?:public|protected|private)?\s*interface\s+([A-Za-z_]\w*)\s+extends\s+([^{]+)\<close>\<close>

definition RE_JAVA_INTERFACE_EXTENDS :: "(nat \<Rightarrow> bool) \<Rightarrow> re" where
  "RE_JAVA_INTERFACE_EXTENDS ua = seq [Bol, ws0,
     Opt (alts [''public'', ''protected'', ''private'']), ws0, kw ''interface'', ws1,
     Grp 1 (ident ua), ws1, kw ''extends'', ws1, Grp 2 (Plus (\<lambda>c. c \<noteq> 123))]"

text \<open>\<open>^\s*(?:public|protected|private|internal)?\s*(?:abstract|sealed|static|partial)?\s*(?:class|interface|struct|enum)\s+([A-Za-z_]\w*)\b\<close>,
  written inline in the source.\<close>

definition RE_CS_TYPE :: "(nat \<Rightarrow> bool) \<Rightarrow> re" where
  "RE_CS_TYPE ua = seq (cs_head @ [alts [''class'', ''interface'', ''struct'', ''enum''], ws1,
     Grp 1 (ident ua), wb ua])"

text \<open>\<open>^\s*(?:public|protected|private|internal)?\s*(?:abstract|sealed|static|partial)?\s*(class|interface|struct)\s+([A-Za-z_]\w*)\s*:\s*([^{]+)\<close>\<close>

definition RE_CS_SUPERTYPES :: "(nat \<Rightarrow> bool) \<Rightarrow> re" where
  "RE_CS_SUPERTYPES ua = seq (cs_head @ [Grp 1 (alts [''class'', ''interface'', ''struct'']),
     ws1, Grp 2 (ident ua), ws0, kw '':'', ws0, Grp 3 (Plus (\<lambda>c. c \<noteq> 123))])"

text \<open>\<open>^\s*(?:public|protected|private|internal)?\s*(?:open|abstract|sealed|data)?\s*(class|interface)\s+([A-Za-z_]\w*)\s*:\s*([^{]+)\<close>\<close>

definition RE_KT_SUPERTYPES :: "(nat \<Rightarrow> bool) \<Rightarrow> re" where
  "RE_KT_SUPERTYPES ua = seq (kt_head @ [Grp 1 (alts [''class'', ''interface'']), ws1,
     Grp 2 (ident ua), ws0, kw '':'', ws0, Grp 3 (Plus (\<lambda>c. c \<noteq> 123))])"

text \<open>\<open>^\s*[A-Za-z_][\w\s\*]+\s+([A-Za-z_]\w*)\s*\([^;]*\)\s*\{\<close>\<close>

definition RE_C_LIKE_FN :: "(nat \<Rightarrow> bool) \<Rightarrow> re" where
  "RE_C_LIKE_FN ua = seq [Bol, ws0, Cls id_start,
     Plus (\<lambda>c. word ua c \<or> isspace c \<or> c = 42), ws1, Grp 1 (ident ua), ws0, kw ''('',
     Star (\<lambda>c. c \<noteq> 59), kw '')'', ws0, kw ''{'']"

text \<open>\<open>next((g for g in m.groups() if g), None)\<close> over the groups numbered \<open>ns\<close>.\<close>

fun first_group :: "(nat \<times> ustr) list \<Rightarrow> nat list \<Rightarrow> ustr option" where
  "first_group g [] = None"
| "first_group g (n # ns) =
     (case group g n of
        Some v \<Rightarrow> if v \<noteq> [] then Some v else first_group g ns
      | None \<Rightarrow> first_group g ns)"

text \<open>\<open>A.match(line) or B.match(line) or ...\<close>, then \<open>m.group(1)\<close>.\<close>

fun first_match_group1 :: "re list \<Rightarrow> ustr \<Rightarrow> ustr option" where
  "first_match_group1 [] line = None"
| "first_match_group1 (r # rs) line =
     (case re_match r line of
        Some (g, _) \<Rightarrow> group g 1
      | None \<Rightarrow> first_match_group1 rs line)"

definition ts_type_res :: "(nat \<Rightarrow> bool) \<Rightarrow> re list" where
  "ts_type_res ua = [RE_TS_CLASS ua, RE_TS_INTERFACE ua, RE_TS_ENUM ua, RE_TS_TYPE_ALIAS ua]"

text \<open>The three lists that the scan of \<open>_extract_symbols\<close> fills.\<close>

type_synonym pairs = "(ustr \<times> nat) list"
type_synonym symtab = "pairs \<times> pairs \<times> pairs"

definition add_type :: "ustr \<Rightarrow> nat \<Rightarrow> symtab \<Rightarrow> symtab" where
  "add_type name ln st = (case st of (ts, fs, es) \<Rightarrow> (ts @ [(name, ln)], fs, es))"

definition add_func :: "ustr \<Rightarrow> nat \<Rightarrow> symtab \<Rightarrow> symtab" where
  "add_func name ln st = (case st of (ts, fs, es) \<Rightarrow> (ts, fs @ [(name, ln)], es))"

definition add_entry :: "ustr \<Rightarrow> nat \<Rightarrow> symtab \<Rightarrow> symtab" where
  "add_entry name ln st = (case st of (ts, fs, es) \<Rightarrow> (ts, fs, es @ [(name, ln)]))"

text \<open>The last step of the two JavaScript branches: \<open>_RE_JS_FN\<close>.\<close>

definition scan_js_fn :: "(nat \<Rightarrow> bool) \<Rightarrow> nat \<Rightarrow> ustr \<Rightarrow> symtab \<Rightarrow> symtab" where
  "scan_js_fn ua ln line st =
     (case re_match (RE_JS_FN ua) line of
        Some (g, _) \<Rightarrow> (case first_group g [1, 2, 3, 4] of
                         Some name \<Rightarrow> add_func name ln st
                       | None \<Rightarrow> st)
      | None \<Rightarrow> st)"

text \<open>The body of the loop over the lines, for the line numbered \<open>ln\<close> in the final file.\<close>

definition scan_line :: "(nat \<Rightarrow> bool) \<Rightarrow> string \<Rightarrow> nat \<Rightarrow> ustr \<Rightarrow> symtab \<Rightarrow> symtab" where
  "scan_line ua sfx ln line st =
     (if length line > 5000 then st
      else if sfx \<in> {''.py'', ''.pyi''} then
        (case match_group (RE_PY_CLASS ua) 1 line of
           Some name \<Rightarrow> add_type name ln st
         | None \<Rightarrow>
            (case match_group (RE_PY_DEF ua) 1 line of
               Some name \<Rightarrow> add_func name ln st
             | None \<Rightarrow>
                 if startswith line (u ''if __name__'') \<and> contains (u ''__main__'') line
                 then add_entry (u ''__main__'') ln st else st))
      else if sfx \<in> {''.js'', ''.jsx'', ''.ts'', ''.tsx''} then
        (if sfx \<in> {''.ts'', ''.tsx''} then
           (case first_match_group1 (ts_type_res ua) line of
              Some name \<Rightarrow> add_type name ln st
            | None \<Rightarrow> scan_js_fn ua ln line st)
         else
           (case re_match (RE_JS_CLASS ua) line of
              Some (g, _) \<Rightarrow> (case first_group g [1, 2, 3] of
                               Some name \<Rightarrow> add_type name ln st
                             | None \<Rightarrow> st)
            | None \<Rightarrow> scan_js_fn ua ln line st))
      else if sfx = ''.go'' then
        (case match_group (RE_GO_TYPE ua) 1 line of
           Some name \<Rightarrow> add_type name ln st
         | None \<Rightarrow>
            (case match_group (RE_GO_FUNC ua) 1 line of
               Some name \<Rightarrow> add_func name ln st
             | None \<Rightarrow> st))
      else if sfx = ''.rs'' then
        (case match_group (RE_RS_ITEM ua) 2 line of
           Some name \<Rightarrow> add_type name ln st
         | None \<Rightarrow>
            (case match_group (RE_RS_FN ua) 1 line of
               Some name \<Rightarrow> add_func name ln st
             | None \<Rightarrow> st))
      else if sfx \<in> {''.java'', ''.kt''} then
        (case match_group (RE_JAVA_TYPE ua) 2 line of
           Some name \<Rightarrow> add_type name ln st
         | None \<Rightarrow> st)
      else if sfx = ''.cs'' then
        (case match_group (RE_CS_TYPE ua) 1 line of
           Some name \<Rightarrow> add_type name ln st
         | None \<Rightarrow> st)
      else
        (case match_group (RE_C_LIKE_FN ua) 1 line of
           Some name \<Rightarrow> add_func name ln st
         | None \<Rightarrow> st))"

text \<open>\<open>for idx, line in enumerate(body_lines, start=1)\<close>; \<open>idx\<close> is the third argument.\<close>

fun scan_lines :: "(nat \<Rightarrow> bool) \<Rightarrow> string \<Rightarrow> nat \<Rightarrow> nat \<Rightarrow> ustr list \<Rightarrow> symtab \<Rightarrow> symtab" where
  "scan_lines ua sfx off idx [] st = st"
| "scan_lines ua sfx off idx (line # ls) st =
     scan_lines ua sfx off (Suc idx) ls (scan_line ua sfx (off + idx) line st)"

text \<open>A reference \<open>Name@L<line>\<close>.\<close>

definition ref_str :: "ustr \<Rightarrow> nat \<Rightarrow> ustr" where
  "ref_str name ln = name @ u ''@L'' @ str_nat ln"

text \<open>The local function \<open>fmt\<close>: the first \<open>limit\<close> names, each once.\<close>

fun fmt_loop :: "pairs \<Rightarrow> ustr list \<Rightarrow> ustr list \<Rightarrow> nat \<Rightarrow> ustr list" where
  "fmt_loop [] seen out limit = out"
| "fmt_loop ((name, ln) # ps) seen out limit =
     (if name \<in> set seen then fmt_loop ps seen out limit
      else let out' = out @ [ref_str name ln]
           in if length out' \<ge> limit then out' else fmt_loop ps (name # seen) out' limit)"

definition fmt :: "pairs \<Rightarrow> nat \<Rightarrow> ustr list" where
  "fmt ps limit = fmt_loop ps [] [] limit"

definition extract_symbols ::
    "(nat \<Rightarrow> bool) \<Rightarrow> string \<Rightarrow> ustr list \<Rightarrow> nat \<Rightarrow> ustr list \<times> ustr list \<times> ustr list" where
  "extract_symbols ua sfx body_lines final_body_offset =
     (case scan_lines ua sfx final_body_offset 1 body_lines ([], [], []) of
        (types, funcs, entrypoints) \<Rightarrow> (fmt types 4, fmt funcs 6, fmt entrypoints 2))"

section \<open>Inheritance extraction\<close>

text \<open>\<open>s.split(sep)\<close> for a one-character separator.\<close>

fun split_char :: "nat \<Rightarrow> ustr \<Rightarrow> ustr \<Rightarrow> ustr list" where
  "split_char sep acc [] = [rev acc]"
| "split_char sep acc (c # cs) =
     (if c = sep then rev acc # split_char sep [] cs else split_char sep (c # acc) cs)"

definition clean_base_name :: "ustr \<Rightarrow> ustr" where
  "clean_base_name s0 =
     (let s = strip s0 in
      if s = [] then []
      else
        let s = strip (takeWhile (\<lambda>c. c \<noteq> 60 \<and> c \<noteq> 40) s) in
        if 46 \<in> set s then rev (takeWhile (\<lambda>c. c \<noteq> 46) (rev s)) else s)"

definition split_supertype_list :: "ustr \<Rightarrow> ustr list" where
  "split_supertype_list raw0 =
     (let raw = strip raw0;
          raw = strip (fst (split1 (u ''{'') raw));
          raw = strip (fst (split1 (u ''where'') raw))
      in if raw = [] then []
         else filter (\<lambda>p. p \<noteq> []) (map strip (split_char 44 [] raw)))"

text \<open>The cross-file index: \<open>None\<close> when parents are not resolved, else a dictionary from
  a type name to the places that declare it.\<close>

type_synonym type_index = "(ustr \<rightharpoonup> (ustr \<times> nat) list) option"

definition resolve_type_ref :: "ustr \<Rightarrow> (ustr \<rightharpoonup> nat) \<Rightarrow> type_index \<Rightarrow> ustr" where
  "resolve_type_ref name type_line_by_name type_index =
     (case type_line_by_name name of
        Some in_file_ln \<Rightarrow> ref_str name in_file_ln
      | None \<Rightarrow>
         (case type_index of
            None \<Rightarrow> name
          | Some idx \<Rightarrow>
             (case (case idx name of None \<Rightarrow> [] | Some ms \<Rightarrow> ms) of
                [(relpath, ln)] \<Rightarrow> name @ u ''@'' @ relpath @ u ''#L'' @ str_nat ln
              | _ \<Rightarrow> name)))"

text \<open>The first loop: the name of the type that a line declares, for the languages that
  the loop knows.\<close>

definition declared_type :: "(nat \<Rightarrow> bool) \<Rightarrow> string \<Rightarrow> ustr \<Rightarrow> ustr option" where
  "declared_type ua sfx line =
     (if sfx \<in> {''.py'', ''.pyi''} then match_group (RE_PY_CLASS ua) 1 line
      else if sfx \<in> {''.js'', ''.jsx'', ''.ts'', ''.tsx''} then
        (if sfx \<in> {''.ts'', ''.tsx''} then first_match_group1 (ts_type_res ua) line
         else (case re_match (RE_JS_CLASS ua) line of
                 Some (g, _) \<Rightarrow> first_group g [1, 2, 3]
               | None \<Rightarrow> None))
      else if sfx \<in> {''.java'', ''.kt''} then match_group (RE_JAVA_TYPE ua) 2 line
      else if sfx = ''.cs'' then match_group (RE_CS_TYPE ua) 1 line
      else None)"

fun type_lines :: "(nat \<Rightarrow> bool) \<Rightarrow> string \<Rightarrow> nat \<Rightarrow> nat \<Rightarrow> ustr list \<Rightarrow> (ustr \<rightharpoonup> nat)
    \<Rightarrow> (ustr \<rightharpoonup> nat)" where
  "type_lines ua sfx off idx [] m = m"
| "type_lines ua sfx off idx (line # ls) m =
     type_lines ua sfx off (Suc idx) ls
       (case declared_type ua sfx line of
          Some name \<Rightarrow> m(name \<mapsto> off + idx)
        | None \<Rightarrow> m)"

text \<open>The relations of an edge.\<close>

definition EXTENDS :: ustr where "EXTENDS = u ''->''"
definition ALSO :: ustr where "ALSO = u ''+''"
definition IMPLEMENTS :: ustr where "IMPLEMENTS = u ''~>''"

text \<open>The cleaned names out of a raw clause, the empty ones left out.\<close>

definition clean_list :: "ustr \<Rightarrow> ustr list" where
  "clean_list raw = filter (\<lambda>b. b \<noteq> []) (map clean_base_name (split_supertype_list raw))"

text \<open>A first name with one relation, the others with a second relation.\<close>

definition first_then :: "ustr \<Rightarrow> ustr \<Rightarrow> ustr list \<Rightarrow> (ustr \<times> ustr) list" where
  "first_then r1 r2 names =
     (case names of [] \<Rightarrow> [] | b # bs \<Rightarrow> (r1, b) # map (\<lambda>x. (r2, x)) bs)"

text \<open>The Kotlin class case: a supertype written as a call is the superclass.\<close>

fun kt_with_super :: "bool \<Rightarrow> (ustr \<times> ustr) list \<Rightarrow> (ustr \<times> ustr) list" where
  "kt_with_super used_super [] = []"
| "kt_with_super used_super ((rel, parent) # rest) =
     (if parent = [] then kt_with_super used_super rest
      else if rel = EXTENDS \<and> \<not> used_super then (EXTENDS, parent) # kt_with_super True rest
      else (IMPLEMENTS, parent) # kt_with_super used_super rest)"

fun kt_without_super :: "nat \<Rightarrow> (ustr \<times> ustr) list \<Rightarrow> (ustr \<times> ustr) list" where
  "kt_without_super j [] = []"
| "kt_without_super j ((rel, parent) # rest) =
     (if parent = [] then kt_without_super (Suc j) rest
      else ((if j = 0 then EXTENDS else IMPLEMENTS), parent) # kt_without_super (Suc j) rest)"

definition kt_class_bases :: "ustr list \<Rightarrow> (ustr \<times> ustr) list" where
  "kt_class_bases raw =
     (let raw_clean = map (\<lambda>p. (if 40 \<in> set p \<and> 41 \<in> set p then EXTENDS else IMPLEMENTS,
                                 clean_base_name p)) raw
      in if list_ex (\<lambda>(rel, _). rel = EXTENDS) raw_clean
         then kt_with_super False raw_clean
         else kt_without_super 0 raw_clean)"

text \<open>The child and the bases that one line gives; \<open>child\<close> is empty when no pattern
  matched.\<close>

definition g_or_empty :: "(nat \<times> ustr) list \<Rightarrow> nat \<Rightarrow> ustr" where
  "g_or_empty g n = (case group g n of Some v \<Rightarrow> v | None \<Rightarrow> [])"

definition line_bases :: "(nat \<Rightarrow> bool) \<Rightarrow> string \<Rightarrow> (ustr \<rightharpoonup> nat) \<Rightarrow> ustr
    \<Rightarrow> ustr \<times> (ustr \<times> ustr) list" where
  "line_bases ua sfx type_line_by_name line =
     (if sfx \<in> {''.py'', ''.pyi''} then
        (case re_match (RE_PY_INHERIT ua) line of
           Some (g, _) \<Rightarrow> (g_or_empty g 1, first_then EXTENDS ALSO (clean_list (g_or_empty g 2)))
         | None \<Rightarrow> ([], []))
      else if sfx \<in> {''.js'', ''.jsx'', ''.ts'', ''.tsx''} then
        (let (child, bases) =
               (case re_match (RE_JS_INHERIT ua) line of
                  Some (g, _) \<Rightarrow> (g_or_empty g 1, [(EXTENDS, clean_base_name (g_or_empty g 2))])
                | None \<Rightarrow> ([], []))
         in case re_match (RE_TS_IMPLEMENTS ua) line of
              Some (g, _) \<Rightarrow>
                (g_or_empty g 1, bases @ map (\<lambda>i. (IMPLEMENTS, i)) (clean_list (g_or_empty g 2)))
            | None \<Rightarrow> (child, bases))
      else if sfx = ''.java'' then
        (let (child, bases) =
               (case re_match (RE_JAVA_INHERIT ua) line of
                  Some (g, _) \<Rightarrow> (g_or_empty g 1, [(EXTENDS, clean_base_name (g_or_empty g 2))])
                | None \<Rightarrow> ([], []));
             (child, bases) =
               (case re_match (RE_JAVA_IMPLEMENTS ua) line of
                  Some (g, _) \<Rightarrow>
                    (g_or_empty g 1,
                     bases @ map (\<lambda>i. (IMPLEMENTS, i)) (clean_list (g_or_empty g 2)))
                | None \<Rightarrow> (child, bases))
         in case re_match (RE_JAVA_INTERFACE_EXTENDS ua) line of
              Some (g, _) \<Rightarrow>
                (g_or_empty g 1, bases @ map (\<lambda>p. (EXTENDS, p)) (clean_list (g_or_empty g 2)))
            | None \<Rightarrow> (child, bases))
      else if sfx = ''.kt'' then
        (case re_match (RE_KT_SUPERTYPES ua) line of
           Some (g, _) \<Rightarrow>
             (let raw = split_supertype_list (g_or_empty g 3) in
              if g_or_empty g 1 = u ''interface''
              then (g_or_empty g 2,
                    map (\<lambda>p. (EXTENDS, p)) (filter (\<lambda>b. b \<noteq> []) (map clean_base_name raw)))
              else (g_or_empty g 2, kt_class_bases raw))
         | None \<Rightarrow> ([], []))
      else if sfx = ''.cs'' then
        (case re_match (RE_CS_SUPERTYPES ua) line of
           Some (g, _) \<Rightarrow>
             (let raw = clean_list (g_or_empty g 3) in
              if g_or_empty g 1 = u ''interface'' then (g_or_empty g 2, map (\<lambda>p. (EXTENDS, p)) raw)
              else if g_or_empty g 1 = u ''struct''
              then (g_or_empty g 2, map (\<lambda>p. (IMPLEMENTS, p)) raw)
              else (g_or_empty g 2, first_then EXTENDS IMPLEMENTS raw))
         | None \<Rightarrow> ([], []))
      else if sfx = ''.rs'' then
        (case re_match (RE_RS_IMPL_FOR ua) line of
           Some (g, _) \<Rightarrow>
             (let trait = clean_base_name (g_or_empty g 1);
                  impl_for = clean_base_name (g_or_empty g 2)
              in if impl_for \<noteq> [] \<and> trait \<noteq> [] \<and> type_line_by_name impl_for \<noteq> None
                 then (impl_for, [(IMPLEMENTS, trait)]) else ([], []))
         | None \<Rightarrow> ([], []))
      else ([], []))"

text \<open>The loop over the bases of one line. The flag says that the cap was reached, which
  ends the whole extraction.\<close>

fun add_edges :: "ustr \<Rightarrow> (ustr \<rightharpoonup> nat) \<Rightarrow> type_index \<Rightarrow> (ustr \<times> ustr) list \<Rightarrow> ustr list
    \<Rightarrow> ustr list \<times> bool" where
  "add_edges child_ref tm tix [] edges = (edges, False)"
| "add_edges child_ref tm tix ((rel, parent) # bs) edges =
     (if parent = [] then add_edges child_ref tm tix bs edges
      else let edges' = edges @ [child_ref @ rel @ resolve_type_ref parent tm tix]
           in if length edges' \<ge> MAX_INHERIT_EDGES then (edges', True)
              else add_edges child_ref tm tix bs edges')"

fun edges_loop :: "(nat \<Rightarrow> bool) \<Rightarrow> string \<Rightarrow> (ustr \<rightharpoonup> nat) \<Rightarrow> type_index \<Rightarrow> nat \<Rightarrow> nat
    \<Rightarrow> ustr list \<Rightarrow> ustr list \<Rightarrow> ustr list" where
  "edges_loop ua sfx tm tix off idx [] edges = edges"
| "edges_loop ua sfx tm tix off idx (line # ls) edges =
     (case line_bases ua sfx tm line of
        (child, bases) \<Rightarrow>
          if child = [] \<or> bases = [] then edges_loop ua sfx tm tix off (Suc idx) ls edges
          else
            let child_decl_ln = (case tm child of Some n \<Rightarrow> n | None \<Rightarrow> off + idx);
                child_ref = ref_str child child_decl_ln
            in case add_edges child_ref tm tix bases edges of
                 (edges', stop) \<Rightarrow>
                   if stop then edges'
                   else edges_loop ua sfx tm tix off (Suc idx) ls edges')"

definition extract_inheritance ::
    "(nat \<Rightarrow> bool) \<Rightarrow> string \<Rightarrow> ustr list \<Rightarrow> nat \<Rightarrow> type_index \<Rightarrow> ustr list" where
  "extract_inheritance ua sfx body_lines final_body_offset type_index =
     (let type_line_by_name = type_lines ua sfx final_body_offset 1 body_lines Map.empty
      in edges_loop ua sfx type_line_by_name type_index final_body_offset 1 body_lines [])"

section \<open>Annotating a file\<close>

text \<open>
  What \<open>annotate_file\<close> reads from its \<open>path\<close> argument: the text of the path, its
  lower-cased suffix, and the path relative to the root that \<open>_relpath_for_header\<close>
  computes from the file system. The text of the file is the argument \<open>raw\<close>, what
  \<open>read_text\<close> returns, and the date of the run is the argument \<open>today\<close>.
\<close>

record path_info =
  path_str :: ustr
  path_suffix :: string
  path_rel :: ustr

definition TODO :: ustr where
  "TODO = u ''TODO''"

text \<open>\<open>a or b\<close> on strings.\<close>

definition str_or :: "ustr \<Rightarrow> ustr \<Rightarrow> ustr" where
  "str_or a b = (if a \<noteq> [] then a else b)"

text \<open>The local function \<open>keep_or_todo\<close>.\<close>

definition keep_or_todo :: "(ustr \<rightharpoonup> ustr) \<Rightarrow> ustr \<Rightarrow> ustr" where
  "keep_or_todo existing_fields key =
     (case existing_fields key of
        Some v \<Rightarrow> if \<not> is_placeholder (Some v) then v else TODO
      | None \<Rightarrow> TODO)"

text \<open>The value of \<open>last_update\<close> after the reconciliation of the fields.\<close>

definition first_last_update :: "bool \<Rightarrow> ustr \<Rightarrow> (ustr \<rightharpoonup> ustr) \<Rightarrow> ustr" where
  "first_last_update refresh today existing_fields =
     (if refresh then today
      else case existing_fields (u ''Last update'') of
             Some v \<Rightarrow> if \<not> is_placeholder (Some v) then v else today
           | None \<Rightarrow> today)"

definition final_purpose :: "bool \<Rightarrow> ustr \<Rightarrow> ustr \<Rightarrow> (ustr \<rightharpoonup> ustr) \<Rightarrow> ustr" where
  "final_purpose refresh purpose existing_doc_hint existing_fields =
     (if refresh then str_or purpose (str_or existing_doc_hint TODO)
      else if purpose \<noteq> [] then purpose
      else case existing_fields (u ''Purpose'') of
             Some v \<Rightarrow> if \<not> is_placeholder (Some v) then v else str_or existing_doc_hint TODO
           | None \<Rightarrow> str_or existing_doc_hint TODO)"

definition index_value :: "bool \<Rightarrow> ustr \<Rightarrow> (ustr \<rightharpoonup> ustr) \<Rightarrow> ustr" where
  "index_value refresh index_hint existing_fields =
     (if refresh then str_or index_hint TODO
      else if index_hint \<noteq> [] then index_hint
      else case existing_fields (u ''Index'') of
             Some v \<Rightarrow> if \<not> is_placeholder (Some v) then v else TODO
           | None \<Rightarrow> TODO)"

text \<open>A manual field: reset in refresh mode, kept in preserve mode.\<close>

definition manual_value :: "bool \<Rightarrow> (ustr \<rightharpoonup> ustr) \<Rightarrow> ustr \<Rightarrow> ustr" where
  "manual_value refresh existing_fields key =
     (if refresh then TODO else keep_or_todo existing_fields key)"

definition MANUAL_KEYS :: "ustr list" where
  "MANUAL_KEYS = map u [''Public API'', ''Inputs/Outputs'', ''Core flow'', ''Dependencies'',
     ''Error handling'', ''Config/env'', ''Side effects'', ''Performance'', ''Security'',
     ''Tests'', ''Known issues'']"

definition list_or_todo :: "ustr list \<Rightarrow> ustr" where
  "list_or_todo xs = (if xs \<noteq> [] then join (u '', '') xs else TODO)"

text \<open>The list \<open>header_fields\<close>.\<close>

definition header_fields :: "ustr \<Rightarrow> ustr \<Rightarrow> ustr \<Rightarrow> bool \<Rightarrow> (ustr \<rightharpoonup> ustr) \<Rightarrow> ustr
    \<Rightarrow> ustr list \<Rightarrow> ustr list \<Rightarrow> ustr list \<Rightarrow> ustr list \<Rightarrow> ustr \<Rightarrow> ustr list" where
  "header_fields relpath purpose index_hint refresh existing_fields existing_doc_hint
      types inheritance funcs entrypoints last_update =
     [CODEX_MARKER @ u '' | 20 lines | keep updated'',
      u ''Path: '' @ relpath,
      u ''Purpose: ''
        @ str_or (final_purpose refresh purpose existing_doc_hint existing_fields) TODO,
      u ''Key types: '' @ list_or_todo types,
      u ''Inheritance: '' @ list_or_todo inheritance,
      u ''Key funcs: '' @ list_or_todo funcs,
      u ''Entrypoints: '' @ list_or_todo entrypoints]
     @ map (\<lambda>key. key @ u '': '' @ manual_value refresh existing_fields key) MANUAL_KEYS
     @ [u ''Index: '' @ index_value refresh index_hint existing_fields,
        u ''Last update: '' @ last_update]"

text \<open>\<open>ln if ln.endswith("\n") else ln + "\n"\<close>\<close>

definition add_nl :: "ustr \<Rightarrow> ustr" where
  "add_nl ln = (if endswith ln NL then ln else ln @ NL)"

text \<open>The text \<open>new_raw\<close>: prolog, header, body.\<close>

definition assemble :: "ustr list \<Rightarrow> ustr list \<Rightarrow> ustr list \<Rightarrow> ustr" where
  "assemble prolog header rest_wo_header = concat (prolog @ map add_nl header @ rest_wo_header)"

text \<open>The local variables of \<open>annotate_file\<close> when it reaches its last comparison.\<close>

record annotated =
  a_prolog :: "ustr list"
  a_rest_wo_header :: "ustr list"
  a_removed :: bool
  a_existing_fields :: "ustr \<rightharpoonup> ustr"
  a_header_fields :: "ustr list"
  a_header :: "ustr list"
  a_new_raw :: ustr

definition annotate_run :: "(nat \<Rightarrow> bool) \<Rightarrow> ustr \<Rightarrow> CommentStyle \<Rightarrow> path_info \<Rightarrow> ustr \<Rightarrow> ustr
    \<Rightarrow> ustr \<Rightarrow> int \<Rightarrow> bool \<Rightarrow> type_index \<Rightarrow> error + annotated" where
  "annotate_run ua today style path raw purpose index_hint max_width refresh type_index =
     (let lines = splitlines_keepends raw;
          sfx = path_suffix path;
          (prolog, rest) = split_prolog ua lines sfx;
          existing_doc_hint =
            (if sfx \<in> {''.py'', ''.pyi''} \<and> purpose = []
             then (case peek_py_module_docstring rest of Some doc \<Rightarrow> doc | None \<Rightarrow> [])
             else [])
      in case split_existing_codex_header rest (path_str path) of
           Inl e \<Rightarrow> Inl e
         | Inr (existing_header, rest_wo_header, removed) \<Rightarrow>
            (let has_header = (case existing_header of Some h \<Rightarrow> h \<noteq> [] | None \<Rightarrow> False);
                 existing_fields =
                   (case existing_header of
                      Some h \<Rightarrow> if h \<noteq> [] then parse_existing_header_fields h else Map.empty
                    | None \<Rightarrow> Map.empty);
                 final_body_offset = length prolog + HEADER_LINES;
                 (types, funcs, entrypoints) =
                   extract_symbols ua sfx rest_wo_header final_body_offset;
                 inheritance =
                   extract_inheritance ua sfx rest_wo_header final_body_offset type_index;
                 last_update = first_last_update refresh today existing_fields;
                 fields1 = header_fields (path_rel path) purpose index_hint refresh
                   existing_fields existing_doc_hint types inheritance funcs entrypoints
                   last_update;
                 header1 = render_header_lines style fields1 max_width;
                 new_raw1 = assemble prolog header1 rest_wo_header;
                 bump = (\<not> refresh \<and> has_header \<and> new_raw1 \<noteq> raw \<and> last_update \<noteq> today);
                 fields2 = (if bump then butlast fields1 @ [u ''Last update: '' @ today]
                            else fields1);
                 header2 = (if bump then render_header_lines style fields2 max_width
                            else header1);
                 new_raw2 = (if bump then assemble prolog header2 rest_wo_header else new_raw1)
             in Inr \<lparr>a_prolog = prolog, a_rest_wo_header = rest_wo_header,
                     a_removed = removed, a_existing_fields = existing_fields,
                     a_header_fields = fields2, a_header = header2, a_new_raw = new_raw2\<rparr>))"

text \<open>The result of \<open>annotate_file\<close>: the pair it returns, and the text it writes to the
  file, if it writes.\<close>

type_synonym annotate_result = "bool \<times> ustr \<times> ustr option"

definition annotate_file :: "(nat \<Rightarrow> bool) \<Rightarrow> ustr \<Rightarrow> path_info \<Rightarrow> ustr \<Rightarrow> ustr \<Rightarrow> ustr
    \<Rightarrow> int \<Rightarrow> bool \<Rightarrow> bool \<Rightarrow> type_index \<Rightarrow> error + annotate_result" where
  "annotate_file ua today path raw purpose index_hint max_width dry_run refresh type_index =
     (case detect_comment_style (path_suffix path) of
        None \<Rightarrow> Inr (False, u ''skip (unsupported): '' @ path_str path, None)
      | Some style \<Rightarrow>
         (case annotate_run ua today style path raw purpose index_hint max_width refresh
                 type_index of
            Inl e \<Rightarrow> Inl e
          | Inr a \<Rightarrow>
              if a_new_raw a = raw then Inr (False, u ''no-op: '' @ path_str path, None)
              else Inr (True,
                        (if a_removed a then u ''updated'' else u ''inserted'')
                          @ u '': '' @ path_str path,
                        if dry_run then None else Some (a_new_raw a))))"


section \<open>Files as lists of lines\<close>

text \<open>
  A line that \<open>splitlines\<close> gives back as it is: it ends with \<open>"\n"\<close> and has no other
  line boundary. The proofs about whole files are about texts that are concatenations
  of such lines.
\<close>

definition plain_line :: "ustr \<Rightarrow> bool" where
  "plain_line l \<longleftrightarrow> l \<noteq> [] \<and> last l = 10 \<and> (\<forall>c\<in>set (butlast l). \<not> linebreak c)"

section \<open>The types that the scan records\<close>

text \<open>
  The name of the type that the loop of \<open>_extract_symbols\<close> records for one line, if it
  records one, and the list of the types that it records for a list of lines. The
  proofs about the Key types field are stated with them.
\<close>

definition line_type :: "(nat \<Rightarrow> bool) \<Rightarrow> string \<Rightarrow> ustr \<Rightarrow> ustr option" where
  "line_type ua sfx line =
     (case fst (scan_line ua sfx 0 line ([], [], [])) of
        [] \<Rightarrow> None
      | (name, _) # _ \<Rightarrow> Some name)"

fun type_pairs :: "(nat \<Rightarrow> bool) \<Rightarrow> string \<Rightarrow> nat \<Rightarrow> nat \<Rightarrow> ustr list \<Rightarrow> pairs" where
  "type_pairs ua sfx off idx [] = []"
| "type_pairs ua sfx off idx (l # ls) =
     (case line_type ua sfx l of Some n \<Rightarrow> [(n, off + idx)] | None \<Rightarrow> [])
     @ type_pairs ua sfx off (Suc idx) ls"

section \<open>Example files\<close>

text \<open>
  The files of the witnesses and counterexamples. They are ASCII texts, so the matcher
  never asks the Unicode database about a code point; \<open>ascii_db\<close> stands for it there.
\<close>

definition ascii_db :: "nat \<Rightarrow> bool" where
  "ascii_db c = False"

text \<open>A fresh Python file with a shebang, an encoding cookie and a docstring.\<close>

definition py_path :: path_info where
  "py_path = \<lparr>path_str = u ''a.py'', path_suffix = ''.py'', path_rel = u ''a.py''\<rparr>"

definition py_lines0 :: "ustr list" where
  "py_lines0 =
     [u ''#!/usr/bin/env python'' @ NL,
      u ''# coding: utf-8'' @ NL,
      [34, 34, 34] @ u ''TODO: describe module'' @ [34, 34, 34] @ NL,
      u ''class A:'' @ NL,
      u ''    pass'' @ NL]"

text \<open>The date of the runs.\<close>

definition run_date :: ustr where
  "run_date = u ''2026-01-02''"

text \<open>The file after a first run, and after a second run.\<close>

definition py_header1 :: "ustr list" where
  "py_header1 =
     [u ''# @codex-header: v1 | 20 lines | keep updated'' @ NL,
      u ''# Path: a.py'' @ NL,
      u ''# Purpose: TODO: describe module'' @ NL,
      u ''# Key types: A@L24'' @ NL,
      u ''# Inheritance: TODO'' @ NL,
      u ''# Key funcs: TODO'' @ NL,
      u ''# Entrypoints: TODO'' @ NL,
      u ''# Public API: TODO'' @ NL,
      u ''# Inputs/Outputs: TODO'' @ NL,
      u ''# Core flow: TODO'' @ NL,
      u ''# Dependencies: TODO'' @ NL,
      u ''# Error handling: TODO'' @ NL,
      u ''# Config/env: TODO'' @ NL,
      u ''# Side effects: TODO'' @ NL,
      u ''# Performance: TODO'' @ NL,
      u ''# Security: TODO'' @ NL,
      u ''# Tests: TODO'' @ NL,
      u ''# Known issues: TODO'' @ NL,
      u ''# Index: TODO'' @ NL,
      u ''# Last update: 2026-01-02'' @ NL]"

definition py_lines1 :: "ustr list" where
  "py_lines1 = take 2 py_lines0 @ py_header1 @ drop 2 py_lines0"

definition py_header2 :: "ustr list" where
  "py_header2 =
     [u ''# @codex-header: v1 | 20 lines | keep updated'' @ NL,
      u ''# Path: a.py'' @ NL,
      u ''# Purpose: TODO'' @ NL,
      u ''# Key types: A@L24'' @ NL,
      u ''# Inheritance: TODO'' @ NL,
      u ''# Key funcs: TODO'' @ NL,
      u ''# Entrypoints: TODO'' @ NL,
      u ''# Public API: TODO'' @ NL,
      u ''# Inputs/Outputs: TODO'' @ NL,
      u ''# Core flow: TODO'' @ NL,
      u ''# Dependencies: TODO'' @ NL,
      u ''# Error handling: TODO'' @ NL,
      u ''# Config/env: TODO'' @ NL,
      u ''# Side effects: TODO'' @ NL,
      u ''# Performance: TODO'' @ NL,
      u ''# Security: TODO'' @ NL,
      u ''# Tests: TODO'' @ NL,
      u ''# Known issues: TODO'' @ NL,
      u ''# Index: TODO'' @ NL,
      u ''# Last update: 2026-01-02'' @ NL]"

definition py_lines2 :: "ustr list" where
  "py_lines2 = take 2 py_lines0 @ py_header2 @ drop 2 py_lines0"





section \<open>Evaluation rules\<close>

text \<open>The definitions that the simplifier unfolds to run the model on concrete files.\<close>

lemmas str_eval = u_def NL_def startswith_def endswith_def strip_def lstrip_def rstrip_def
  isspace_def rstrip_chars_def lstrip_chars_def suffix_to_prefix

lemmas prolog_eval = split_prolog_def go_build_tags_def rust_inner_attrs_def is_build_tag_def
  is_inner_attr_def is_blank_def

section \<open>Properties of truncation\<close>
















section \<open>Properties of the header renderer\<close>

lemma length_block_fields: "length (block_fields fs) = HEADER_LINES"
proof (cases fs)
  case Nil
  then show ?thesis by (simp add: block_fields_def Let_def HEADER_LINES_def)
next
  case (Cons f fs')
  then show ?thesis
    by (auto simp: block_fields_def Let_def HEADER_LINES_def)
qed

lemma last_block_fields: "fs \<noteq> [] \<Longrightarrow> last (block_fields fs) = last fs"
  by (auto simp: block_fields_def Let_def HEADER_LINES_def)

lemma length_pad_rendered:
  "length (pad_rendered p r) = max HEADER_LINES (length r)"
  by (induction p r rule: pad_rendered.induct) (subst pad_rendered.simps, auto)

lemma pad_rendered_full: "HEADER_LINES \<le> length r \<Longrightarrow> pad_rendered p r = r"
  by (subst pad_rendered.simps) simp

lemma pad_rendered_replicate:
  "pad_rendered p r = r @ replicate (HEADER_LINES - length r) p"
proof (induction p r rule: pad_rendered.induct)
  case (1 pad rendered)
  show ?case
  proof (cases "length rendered < HEADER_LINES")
    case True
    then have "HEADER_LINES - length rendered = Suc (HEADER_LINES - length (rendered @ [pad]))"
      by simp
    with 1 True show ?thesis
      by (subst pad_rendered.simps) (simp add: replicate_app_Cons_same)
  next
    case False
    then show ?thesis by (subst pad_rendered.simps) simp
  qed
qed

lemma length_render_block:
  assumes "kind style = u ''block''"
  shows "length (render_header_lines style fs w) = HEADER_LINES"
proof -
  have "length (block_fields fs) = 20"
    using length_block_fields [of fs] by (simp add: HEADER_LINES_def)
  then show ?thesis
    using assms by (simp add: render_header_lines_def Let_def HEADER_LINES_def)
qed

lemma length_render_line:
  assumes "kind style \<noteq> u ''block''"
  shows "length (render_header_lines style fs w) = HEADER_LINES"
  using assms by (simp add: render_header_lines_def Let_def length_pad_rendered)

text \<open>
  Claim C5, as the code has it. For every comment style and every sequence of fields, of
  any length, the rendered header has exactly 20 lines. In a block style (C-like or HTML
  comments) with at least one field, the final field is rendered on the last line,
  between the line prefix and the closing delimiter. In a line style the final field is
  on the last line when exactly 20 fields are supplied.
\<close>

theorem render_header_lines_exact:
  "length (render_header_lines style fs w) = HEADER_LINES
   \<and> (kind style = u ''block'' \<and> fs \<noteq> [] \<longrightarrow>
        last (render_header_lines style fs w)
        = block_line_prefix style @ truncate_s (last fs) w @ u '' '' @ block_end style)
   \<and> (kind style \<noteq> u ''block'' \<and> length fs = HEADER_LINES \<longrightarrow>
        last (render_header_lines style fs w)
        = line_prefix style @ truncate_s (last fs) w)"
proof (intro conjI impI)
  show "length (render_header_lines style fs w) = HEADER_LINES"
    using length_render_block length_render_line by (cases "kind style = u ''block''") auto
next
  assume "kind style = u ''block'' \<and> fs \<noteq> []"
  then show "last (render_header_lines style fs w)
      = block_line_prefix style @ truncate_s (last fs) w @ u '' '' @ block_end style"
    by (simp add: render_header_lines_def Let_def last_block_fields)
next
  assume a: "kind style \<noteq> u ''block'' \<and> length fs = HEADER_LINES"
  then have ne: "fs \<noteq> []"
    by (auto simp: HEADER_LINES_def)
  show "last (render_header_lines style fs w) = line_prefix style @ truncate_s (last fs) w"
    using a ne by (simp add: render_header_lines_def Let_def pad_rendered_full last_map)
qed

theorem render_header_lines_exact_witness:
  "length (render_header_lines (block_style ''/*'' '' * '' '' */'') [u ''a'', u ''b''] 120) = 20
   \<and> last (render_header_lines (block_style ''/*'' '' * '' '' */'') [u ''a'', u ''b''] 120)
       = u '' * b  */''
   \<and> last (render_header_lines (line_style ''# '') (replicate 19 (u ''a'') @ [u ''b'']) 120)
       = u ''# b''"
  using render_header_lines_exact [of "block_style ''/*'' '' * '' '' */''" "[u ''a'', u ''b'']" 120]
    render_header_lines_exact [of "line_style ''# ''" "replicate 19 (u ''a'') @ [u ''b'']" 120]
  by (simp add: block_style_def line_style_def HEADER_LINES_def u_def truncate_s_def
      strip_def lstrip_def rstrip_def isspace_def)

text \<open>
  In a line style the claim fails: with 5 fields the padding lines come after the final
  field, so the last line is the bare prefix; with 21 fields the rendered list is cut to
  its first 20 entries and the final field is not rendered.
\<close>

theorem render_header_lines_counterexample:
  "last (render_header_lines (line_style ''# '') [u ''a'', u ''b'', u ''c'', u ''d'', u ''e''] 120)
     = u ''#''
   \<and> last (render_header_lines (line_style ''# '') (replicate 20 (u ''a'') @ [u ''z'']) 120)
     = u ''# a''"
  by (simp add: render_header_lines_def line_style_def HEADER_LINES_def u_def truncate_s_def
      strip_def lstrip_def rstrip_def isspace_def pad_rendered_replicate Let_def)

section \<open>Properties of the prolog splitter\<close>

lemma consume1_app: "consume1 P (p, r) = (p', r') \<Longrightarrow> p' @ r' = p @ r"
  by (cases r) (auto split: if_splits)

lemma consume_while_eq: "consume_while P (p, r) = (p @ takeWhile P r, dropWhile P r)"
  by (induction r arbitrary: p) auto

lemma consume_while_app: "consume_while P (p, r) = (p', r') \<Longrightarrow> p' @ r' = p @ r"
  by (simp add: consume_while_eq) auto

lemma rust_inner_attrs_app: "rust_inner_attrs (p, r) = (p', r') \<Longrightarrow> p' @ r' = p @ r"
proof -
  assume a: "rust_inner_attrs (p, r) = (p', r')"
  obtain p1 r1 where w: "consume_while is_inner_attr (p, r) = (p1, r1)"
    by (cases "consume_while is_inner_attr (p, r)")
  have "p1 @ r1 = p @ r" using w by (rule consume_while_app)
  moreover have "consume1 is_blank (p1, r1) = (p', r') \<Longrightarrow> p' @ r' = p1 @ r1"
    by (rule consume1_app)
  ultimately show ?thesis
    using a w by (auto simp: rust_inner_attrs_def split: list.splits if_splits)
qed

lemma go_build_tags_eq:
  "go_build_tags (p, r) =
     (if r \<noteq> [] \<and> is_build_tag (hd r) then
        (case dropWhile is_build_tag r of
           [] \<Rightarrow> (p @ takeWhile is_build_tag r @ [NL], [])
         | l' # d' \<Rightarrow> if is_blank l' then (p @ takeWhile is_build_tag r @ [l'], d')
                     else (p @ takeWhile is_build_tag r @ [NL], l' # d'))
      else (p, r))"
  by (cases r)
     (auto simp: go_build_tags_def consume_while_eq simp del: dropWhile_eq_Nil_conv
           split: list.splits)

lemma go_build_tags_cases:
  assumes "go_build_tags (p, r) = (p', r')"
  shows "p' @ r' = p @ r
    \<or> (\<exists>t. t \<noteq> [] \<and> is_build_tag (last t) \<and> r = t @ r' \<and> p' = p @ t @ [NL]
         \<and> (r' \<noteq> [] \<longrightarrow> \<not> is_blank (hd r')))"
proof (cases r)
  case Nil
  then show ?thesis using assms by (simp add: go_build_tags_def)
next
  case (Cons l ls)
  show ?thesis
  proof (cases "is_build_tag l")
    case False
    then show ?thesis using assms Cons by (simp add: go_build_tags_def)
  next
    case True
    let ?t = "takeWhile is_build_tag r" and ?d = "dropWhile is_build_tag r"
    have t_ne: "?t \<noteq> []" using True Cons by simp
    have t_last: "is_build_tag (last ?t)"
      using t_ne by (meson last_in_set set_takeWhileD)
    have split: "r = ?t @ ?d" by simp
    have unfold: "go_build_tags (p, r) =
        (case ?d of [] \<Rightarrow> (p @ ?t @ [NL], [])
         | l' # d' \<Rightarrow> if is_blank l' then (p @ ?t @ [l'], d') else (p @ ?t @ [NL], l' # d'))"
      using True Cons by (subst go_build_tags_eq) simp
    show ?thesis
    proof (cases ?d)
      case Nil
      then have "p' = p @ ?t @ [NL]" "r' = []"
        using assms unfold by (simp_all del: dropWhile_eq_Nil_conv)
      then show ?thesis using t_ne t_last split Nil
        by (metis append_Nil2)
    next
      case (Cons l' d')
      show ?thesis
      proof (cases "is_blank l'")
        case True
        then have "p' = p @ ?t @ [l']" "r' = d'"
          using assms unfold Cons by (simp_all del: dropWhile_eq_Nil_conv)
        then have "p' @ r' = p @ ?t @ ?d" using Cons by simp
        then show ?thesis using split by (metis)
      next
        case False
        then have "p' = p @ ?t @ [NL]" "r' = ?d"
          using assms unfold Cons by (simp_all del: dropWhile_eq_Nil_conv)
        then show ?thesis using t_ne t_last split Cons False
          by (metis list.sel(1))
      qed
    qed
  qed
qed

text \<open>
  Claim C7. For every list of lines and every suffix, the prolog followed by the body is
  the original list of lines, or the original list with one \<open>"\n"\<close> line inserted at a
  position \<open>k\<close>: the line before it is a build directive and the line after it, if there
  is one, is not blank.
\<close>

theorem split_prolog_concat:
  assumes "split_prolog ua lines sfx = (prolog, body)"
  shows "prolog @ body = lines
    \<or> (\<exists>k. 0 < k \<and> k \<le> length lines \<and> is_build_tag (lines ! (k - 1))
          \<and> (k < length lines \<longrightarrow> \<not> is_blank (lines ! k))
          \<and> prolog @ body = take k lines @ [NL] @ drop k lines)"
proof (cases "lines = []")
  case True
  then show ?thesis using assms by (simp add: split_prolog_def)
next
  case False
  obtain p1 r1 where s1: "consume1 (\<lambda>l. startswith l (u ''#!'')) ([], lines) = (p1, r1)"
    by (cases "consume1 (\<lambda>l. startswith l (u ''#!'')) ([], lines)")
  obtain p2 r2 where s2: "consume1 (\<lambda>l. startswith (lstrip l) (u ''<?xml'')) (p1, r1) = (p2, r2)"
    by (cases "consume1 (\<lambda>l. startswith (lstrip l) (u ''<?xml'')) (p1, r1)")
  obtain p3 r3 where s3: "(if sfx \<in> {''.py'', ''.pyi''}
      then consume1 (matches (RE_CODING ua)) (p2, r2) else (p2, r2)) = (p3, r3)"
    by (cases "(if sfx \<in> {''.py'', ''.pyi''}
      then consume1 (matches (RE_CODING ua)) (p2, r2) else (p2, r2))")
  obtain p4 r4 where s4: "go_build_tags (p3, r3) = (p4, r4)"
    by (cases "go_build_tags (p3, r3)")
  have s5: "rust_inner_attrs (p4, r4) = (prolog, body)"
    using assms False s1 s2 s3 s4 by (simp add: split_prolog_def)
  have e1: "p1 @ r1 = lines" using consume1_app [OF s1] by simp
  have e2: "p2 @ r2 = lines" using consume1_app [OF s2] e1 by simp
  have e3: "p3 @ r3 = lines"
    using s3 e2 consume1_app [of "matches (RE_CODING ua)" p2 r2 p3 r3]
    by (auto split: if_splits)
  have e5: "prolog @ body = p4 @ r4" using s5 by (rule rust_inner_attrs_app)
  from go_build_tags_cases [OF s4] show ?thesis
  proof
    assume "p4 @ r4 = p3 @ r3"
    then show ?thesis using e3 e5 by simp
  next
    assume "\<exists>t. t \<noteq> [] \<and> is_build_tag (last t) \<and> r3 = t @ r4 \<and> p4 = p3 @ t @ [NL]
         \<and> (r4 \<noteq> [] \<longrightarrow> \<not> is_blank (hd r4))"
    then obtain t where t: "t \<noteq> []" "is_build_tag (last t)" "r3 = t @ r4"
        "p4 = p3 @ t @ [NL]" "r4 \<noteq> [] \<longrightarrow> \<not> is_blank (hd r4)"
      by blast
    define k where "k = length (p3 @ t)"
    have lines: "lines = (p3 @ t) @ r4" using e3 t(3) by simp
    have k0: "0 < k" using t(1) by (simp add: k_def)
    have kle: "k \<le> length lines" by (simp add: k_def lines)
    have "lines ! (k - 1) = last (p3 @ t)"
      using t(1) unfolding lines k_def
      by (metis append_is_Nil_conv diff_less last_conv_nth length_greater_0_conv
          less_numeral_extra(1) nth_append)
    then have tag: "is_build_tag (lines ! (k - 1))" using t(1,2) by simp
    have nb: "k < length lines \<longrightarrow> \<not> is_blank (lines ! k)"
    proof
      assume "k < length lines"
      then have ne: "r4 \<noteq> []" by (simp add: k_def lines)
      have "lines ! k = hd r4"
        using ne unfolding lines k_def by (simp add: nth_append hd_conv_nth)
      then show "\<not> is_blank (lines ! k)" using t(5) ne by simp
    qed
    have "prolog @ body = take k lines @ [NL] @ drop k lines"
      using e5 t(4) unfolding lines k_def by simp
    then show ?thesis using k0 kle tag nb by blast
  qed
qed

theorem split_prolog_concat_witness:
  "split_prolog (\<lambda>c. False) [u ''//go:build linux'' @ NL, u ''package main'' @ NL] ''.go''
     = ([u ''//go:build linux'' @ NL, NL], [u ''package main'' @ NL])
   \<and> ([u ''//go:build linux'' @ NL, NL] @ [u ''package main'' @ NL]
        = [u ''//go:build linux'' @ NL, u ''package main'' @ NL]
      \<or> (\<exists>k. 0 < k \<and> k \<le> length [u ''//go:build linux'' @ NL, u ''package main'' @ NL]
            \<and> is_build_tag ([u ''//go:build linux'' @ NL, u ''package main'' @ NL] ! (k - 1))
            \<and> (k < length [u ''//go:build linux'' @ NL, u ''package main'' @ NL]
                 \<longrightarrow> \<not> is_blank ([u ''//go:build linux'' @ NL, u ''package main'' @ NL] ! k))
            \<and> [u ''//go:build linux'' @ NL, NL] @ [u ''package main'' @ NL]
                = take k [u ''//go:build linux'' @ NL, u ''package main'' @ NL] @ [NL]
                  @ drop k [u ''//go:build linux'' @ NL, u ''package main'' @ NL]))"
proof -
  have e: "split_prolog (\<lambda>c. False) [u ''//go:build linux'' @ NL, u ''package main'' @ NL] ''.go''
     = ([u ''//go:build linux'' @ NL, NL], [u ''package main'' @ NL])"
    by (simp add: prolog_eval str_eval)
  from split_prolog_concat [OF e] e show ?thesis by blast
qed

section \<open>Properties of the header locator\<close>

lemma contains_iff: "contains sub s \<longleftrightarrow> (\<exists>a b. s = a @ sub @ b)"
proof (induction s)
  case Nil
  then show ?case by auto
next
  case (Cons c cs)
  show ?case
  proof
    assume "contains sub (c # cs)"
    then consider "prefix sub (c # cs)" | "contains sub cs" by auto
    then show "\<exists>a b. c # cs = a @ sub @ b"
    proof cases
      case 1
      then obtain b where "c # cs = sub @ b" by (auto simp: prefix_def)
      then show ?thesis by (metis append_Nil)
    next
      case 2
      then obtain a b where "cs = a @ sub @ b" using Cons.IH by blast
      then have "c # cs = (c # a) @ sub @ b" by simp
      then show ?thesis by blast
    qed
  next
    assume "\<exists>a b. c # cs = a @ sub @ b"
    then obtain a b where ab: "c # cs = a @ sub @ b" by blast
    show "contains sub (c # cs)"
    proof (cases a)
      case Nil
      then have "prefix sub (c # cs)" using ab by (simp add: prefix_def)
      then show ?thesis by simp
    next
      case (Cons x a')
      then have "cs = a' @ sub @ b" using ab by simp
      then have "contains sub cs" using Cons.IH by blast
      then show ?thesis by simp
    qed
  qed
qed

lemma contains_concat:
  assumes "ln \<in> set ls" and "contains sub ln"
  shows "contains sub (concat ls)"
proof -
  obtain xs ys where ls: "ls = xs @ ln # ys"
    using assms(1) by (meson split_list)
  obtain a b where ln: "ln = a @ sub @ b"
    using assms(2) contains_iff by blast
  have "concat ls = (concat xs @ a) @ sub @ (b @ concat ys)"
    by (simp add: ls ln)
  then show ?thesis using contains_iff by blast
qed






section \<open>More evaluation rules\<close>

text \<open>Recursion equations in a form that the simplifier can use on concrete arguments,
  and the definitions of each stage of a run.\<close>

lemma str_nat_digit: "n < 10 \<Longrightarrow> str_nat n = [48 + n]"
  by (subst str_nat.simps) simp

lemma str_nat_more: "10 \<le> n \<Longrightarrow> str_nat n = str_nat (n div 10) @ [48 + n mod 10]"
  by (subst str_nat.simps) simp

lemma del_matches_Nil: "del_matches r b [] = []"
  by (subst del_matches.simps) (auto split: option.splits)

lemma del_matches_Cons:
  "del_matches r b (c # cs) =
     (case rmatch r (\<lambda>(b', s', g). Some (b', s')) (b, c # cs, []) of
        Some (b', s') \<Rightarrow>
          if length s' < Suc (length cs) then del_matches r b' s'
          else c # del_matches r (c # b) cs
      | None \<Rightarrow> c # del_matches r (c # b) cs)"
  by (subst del_matches.simps) (auto split: option.splits)

lemmas rec_eval = str_nat_digit str_nat_more pad_rendered_replicate del_matches_Nil
  del_matches_Cons

lemmas re_eval = re_match_def matches_def group_def match_group_def lower_def upper_def
  digit_def word_def id_start_def js_id_start_def js_word_def dot_def one_of_def
  ws0_def ws1_def ident_def js_ident_def wb_def kw_def

lemmas sym_eval = extract_symbols_def scan_line_def scan_js_fn_def add_type_def add_func_def
  add_entry_def fmt_def ref_str_def ts_type_res_def
  RE_PY_DEF_def RE_PY_CLASS_def RE_JS_CLASS_def RE_TS_CLASS_def RE_TS_INTERFACE_def
  RE_TS_ENUM_def RE_TS_TYPE_ALIAS_def ts_decl_def ts_class_head_def RE_JS_FN_def
  RE_GO_TYPE_def RE_GO_FUNC_def RE_RS_ITEM_def RE_RS_FN_def RE_JAVA_TYPE_def java_head_def
  RE_CS_TYPE_def cs_head_def RE_C_LIKE_FN_def

lemmas inh_eval = extract_inheritance_def declared_type_def line_bases_def clean_list_def
  clean_base_name_def split_supertype_list_def split1_def resolve_type_ref_def
  first_then_def kt_class_bases_def g_or_empty_def EXTENDS_def ALSO_def IMPLEMENTS_def
  MAX_INHERIT_EDGES_def RE_PY_INHERIT_def RE_JS_INHERIT_def RE_TS_IMPLEMENTS_def
  RE_JAVA_INHERIT_def RE_JAVA_IMPLEMENTS_def RE_JAVA_INTERFACE_EXTENDS_def
  RE_CS_SUPERTYPES_def RE_KT_SUPERTYPES_def kt_head_def RE_RS_IMPL_FOR_def

lemmas style_eval = detect_comment_style_def COMMENT_STYLES_BY_SUFFIX_def SKIP_SUFFIXES_def
  hash_suffixes_def dash_suffixes_def c_block_suffixes_def html_suffixes_def

lemmas fields_eval = header_fields_def final_purpose_def index_value_def manual_value_def
  keep_or_todo_def first_last_update_def MANUAL_KEYS_def list_or_todo_def TODO_def str_or_def
  is_placeholder_def CODEX_MARKER_def

lemmas render_eval = render_header_lines_def truncate_s_def slice_to_def ELLIPSIS_def
  line_style_def block_style_def block_fields_def HEADER_LINES_def

lemmas parse_eval = parse_existing_header_fields_def strip_header_comment_syntax_def
  re_sub_empty_def RE_HEADER_PREFIX_def RE_HEADER_SUFFIX_def HEADER_FIELD_PREFIXES_def

section \<open>Texts that are concatenations of plain lines\<close>

lemma splitlines_acc_line:
  assumes "\<forall>c\<in>set x. \<not> linebreak c"
  shows "splitlines_acc acc (x @ 10 # rest) = (rev acc @ x @ [10]) # splitlines_acc [] rest"
  using assms
proof (induction x arbitrary: acc)
  case Nil
  show ?case by (cases rest) (simp_all add: linebreak_def)
next
  case (Cons c x)
  obtain d cs where dcs: "x @ 10 # rest = d # cs"
    by (cases "x @ 10 # rest") auto
  have nb: "\<not> linebreak c" using Cons.prems by simp
  then have "c \<noteq> 13" by (auto simp: linebreak_def)
  then have "splitlines_acc acc ((c # x) @ 10 # rest) = splitlines_acc (c # acc) (x @ 10 # rest)"
    using nb dcs by simp
  also have "\<dots> = (rev (c # acc) @ x @ [10]) # splitlines_acc [] rest"
    using Cons.IH [of "c # acc"] Cons.prems by simp
  finally show ?case by simp
qed

lemma plain_line_split:
  assumes "plain_line l"
  shows "\<exists>x. l = x @ [10] \<and> (\<forall>c\<in>set x. \<not> linebreak c)"
  using assms unfolding plain_line_def by (metis append_butlast_last_id)

lemma splitlines_keepends_concat:
  assumes "\<forall>l\<in>set ls. plain_line l"
  shows "splitlines_keepends (concat ls) = ls"
  using assms
proof (induction ls)
  case Nil
  then show ?case by (simp add: splitlines_keepends_def)
next
  case (Cons l ls)
  then obtain x where x: "l = x @ [10]" "\<forall>c\<in>set x. \<not> linebreak c"
    using plain_line_split by (metis list.set_intros(1))
  have "splitlines_acc [] (x @ 10 # concat ls) = (x @ [10]) # splitlines_acc [] (concat ls)"
    using splitlines_acc_line [OF x(2), of "[]" "concat ls"] by simp
  then show ?case
    using Cons x(1) by (simp add: splitlines_keepends_def)
qed

lemma concat_plain_inj:
  assumes "\<forall>l\<in>set xs. plain_line l" and "\<forall>l\<in>set ys. plain_line l"
  shows "concat xs = concat ys \<longleftrightarrow> xs = ys"
  using assms splitlines_keepends_concat by metis

lemma contains_across:
  assumes "contains sub (x @ c # y)" and "c \<notin> set sub"
  shows "contains sub x \<or> contains sub y"
proof -
  obtain a b where ab: "x @ c # y = a @ sub @ b"
    using assms(1) contains_iff by blast
  show ?thesis
  proof (cases "length (a @ sub) \<le> length x")
    case True
    have "take (length x) (x @ c # y) = take (length x) (a @ sub @ b)" using ab by simp
    then have "x = a @ sub @ take (length x - length (a @ sub)) b"
      using True by simp
    then show ?thesis using contains_iff by blast
  next
    case False
    have "length x < length a"
    proof (rule ccontr)
      assume "\<not> length x < length a"
      then have le: "length a \<le> length x" by simp
      have "(x @ c # y) ! length x = c" by simp
      moreover have lt: "length x - length a < length sub" using le False by simp
      moreover have "(a @ sub @ b) ! length x = (sub @ b) ! (length x - length a)"
        using le by (simp add: nth_append)
      moreover have "(sub @ b) ! (length x - length a) = sub ! (length x - length a)"
        using lt by (simp add: nth_append)
      ultimately have "c \<in> set sub" using ab by (metis nth_mem)
      then show False using assms(2) by simp
    qed
    then have "drop (Suc (length x)) (x @ c # y) = drop (Suc (length x)) a @ sub @ b"
      unfolding ab by simp
    then have "y = drop (Suc (length x)) a @ sub @ b" by simp
    then show ?thesis using contains_iff by blast
  qed
qed

lemma contains_concat_plain:
  assumes "\<forall>l\<in>set ls. plain_line l" and "10 \<notin> set sub" and "sub \<noteq> []"
  shows "contains sub (concat ls) \<longleftrightarrow> (\<exists>l\<in>set ls. contains sub l)"
  using assms(1)
proof (induction ls)
  case Nil
  then show ?case using assms(3) by simp
next
  case (Cons l ls)
  then obtain x where x: "l = x @ [10]" by (metis plain_line_split list.set_intros(1))
  have ih: "contains sub (concat ls) \<longleftrightarrow> (\<exists>l\<in>set ls. contains sub l)"
    using Cons by simp
  show ?case
  proof
    assume "contains sub (concat (l # ls))"
    then have "contains sub (x @ 10 # concat ls)" using x by simp
    then have "contains sub x \<or> contains sub (concat ls)"
      using contains_across assms(2) by blast
    moreover have "contains sub x \<Longrightarrow> contains sub l"
      unfolding x contains_iff by (metis append.assoc)
    ultimately show "\<exists>l\<in>set (l # ls). contains sub l" using ih by auto
  next
    assume "\<exists>l'\<in>set (l # ls). contains sub l'"
    then obtain l' where "l' \<in> set (l # ls)" "contains sub l'" by blast
    then obtain p q a b where "l # ls = p @ l' # q" "l' = a @ sub @ b"
      using contains_iff by (metis split_list)
    then have "concat (l # ls) = (concat p @ a) @ sub @ (b @ concat q)" by simp
    then show "contains sub (concat (l # ls))" using contains_iff by blast
  qed
qed

section \<open>The stages of a run\<close>

text \<open>A run of \<open>annotate_file\<close> on a supported file, stage by stage: each premise is
  one local variable of the source.\<close>

lemma annotate_run_stages:
  assumes "splitlines_keepends raw = lines"
    and "split_prolog ua lines (path_suffix path) = pr"
    and "(if path_suffix path \<in> {''.py'', ''.pyi''} \<and> purpose = []
          then (case peek_py_module_docstring (snd pr) of Some doc \<Rightarrow> doc | None \<Rightarrow> [])
          else []) = hint"
    and "split_existing_codex_header (snd pr) (path_str path) = Inr hres"
    and "(case fst hres of
            Some h \<Rightarrow> if h \<noteq> [] then parse_existing_header_fields h else Map.empty
          | None \<Rightarrow> Map.empty) = ef"
    and "extract_symbols ua (path_suffix path) (fst (snd hres)) (length (fst pr) + HEADER_LINES)
          = syms"
    and "extract_inheritance ua (path_suffix path) (fst (snd hres))
          (length (fst pr) + HEADER_LINES) ti = inh"
    and "first_last_update refresh today ef = lu"
    and "header_fields (path_rel path) purpose index_hint refresh ef hint (fst syms) inh
          (fst (snd syms)) (snd (snd syms)) lu = fields1"
    and "render_header_lines style fields1 w = header1"
    and "assemble (fst pr) header1 (fst (snd hres)) = new_raw1"
    and "bump = (\<not> refresh \<and> (case fst hres of Some h \<Rightarrow> h \<noteq> [] | None \<Rightarrow> False)
                 \<and> new_raw1 \<noteq> raw \<and> lu \<noteq> today)"
    and "(if bump then butlast fields1 @ [u ''Last update: '' @ today] else fields1) = fields2"
    and "(if bump then render_header_lines style fields2 w else header1) = header2"
    and "(if bump then assemble (fst pr) header2 (fst (snd hres)) else new_raw1) = new_raw2"
  shows "annotate_run ua today style path raw purpose index_hint w refresh ti
    = Inr \<lparr>a_prolog = fst pr, a_rest_wo_header = fst (snd hres), a_removed = snd (snd hres),
           a_existing_fields = ef, a_header_fields = fields2, a_header = header2,
           a_new_raw = new_raw2\<rparr>"
proof -
  obtain prolog rest where pr: "pr = (prolog, rest)" by (cases pr)
  obtain eh body removed where hres: "hres = (eh, body, removed)" by (cases hres)
  obtain types funcs entrypoints where syms: "syms = (types, funcs, entrypoints)"
    by (cases syms)
  show ?thesis
    using assms unfolding pr hres syms fst_conv snd_conv
    unfolding annotate_run_def Let_def
    by (simp only: prod.case sum.case fst_conv snd_conv)
qed

lemma no_bump_fresh:
  "eh = None \<Longrightarrow> False = (\<not> r \<and> (case eh of Some h \<Rightarrow> h \<noteq> [] | None \<Rightarrow> False) \<and> X \<and> Y)"
  by simp

lemma no_bump_refresh:
  "r \<Longrightarrow> False = (\<not> r \<and> H \<and> X \<and> Y)"
  by simp

lemma no_bump_same:
  "a = b \<Longrightarrow> False = (\<not> r \<and> H \<and> a \<noteq> b \<and> Y)"
  by simp

lemma no_bump_today:
  "l = t \<Longrightarrow> False = (\<not> r \<and> H \<and> X \<and> l \<noteq> t)"
  by simp

lemma bump_true:
  "\<not> r \<Longrightarrow> eh = Some h \<Longrightarrow> h \<noteq> [] \<Longrightarrow> a \<noteq> b \<Longrightarrow> l \<noteq> t \<Longrightarrow>
   True = (\<not> r \<and> (case eh of Some h \<Rightarrow> h \<noteq> [] | None \<Rightarrow> False) \<and> a \<noteq> b \<and> l \<noteq> t)"
  by simp

lemma differ_at: "a ! i \<noteq> b ! i \<Longrightarrow> a \<noteq> b"
  by auto




subsection \<open>The body is a suffix of the lines\<close>






subsection \<open>Rendered header lines are single lines\<close>










section \<open>From a run to the result of \<open>annotate_file\<close>\<close>





lemma split_existing_found:
  assumes "HEADER_LINES \<le> length rest"
    and "list_ex (\<lambda>ln. contains CODEX_MARKER ln) (take HEADER_LINES rest)"
  shows "split_existing_codex_header rest path
    = Inr (Some (take HEADER_LINES rest), drop HEADER_LINES rest, True)"
proof -
  obtain ln where ln: "ln \<in> set (take HEADER_LINES rest)" "contains CODEX_MARKER ln"
    using assms(2) by (auto simp: list_ex_iff)
  have "ln \<in> set (take (min (length rest) 60) rest)"
    using ln(1) assms(1) by (auto simp: HEADER_LINES_def min_def dest: in_set_takeD
        intro: set_take_subset_set_take [THEN subsetD, of 20 60])
  then have "contains CODEX_MARKER (concat (take (min (length rest) 60) rest))"
    using ln(2) by (rule contains_concat)
  then show ?thesis
    using assms by (simp add: split_existing_codex_header_def Let_def)
qed


lemma count_sub_Nil: "sub \<noteq> [] \<Longrightarrow> count_sub sub [] = 0"
  by (subst count_sub.simps) simp

lemma count_sub_Cons:
  "sub \<noteq> [] \<Longrightarrow> count_sub sub (c # cs) =
     (if prefix sub (c # cs) then Suc (count_sub sub (drop (length sub) (c # cs)))
      else count_sub sub cs)"
  by (subst count_sub.simps) simp

lemmas doc_eval = peek_py_module_docstring_def count_sub_Nil count_sub_Cons split1_def
  is_blank_def truncate_s_def slice_to_def

lemmas lines_eval = splitlines_keepends_concat plain_line_def linebreak_def

lemma assemble_lines:
  assumes "prolog @ map add_nl header @ body = ls"
  shows "assemble prolog header body = concat ls"
  using assms by (simp add: assemble_def)


lemma annotate_file_changed:
  assumes "detect_comment_style (path_suffix path) = Some style"
    and "annotate_run ua today style path raw purpose index_hint w refresh ti = Inr a"
    and "a_new_raw a \<noteq> raw"
  shows "annotate_file ua today path raw purpose index_hint w dry_run refresh ti
    = Inr (True, (if a_removed a then u ''updated'' else u ''inserted'') @ u '': '' @ path_str path,
           if dry_run then None else Some (a_new_raw a))"
  using assms by (simp add: annotate_file_def)

lemma annotate_file_noop:
  assumes "detect_comment_style (path_suffix path) = Some style"
    and "annotate_run ua today style path raw purpose index_hint w refresh ti = Inr a"
    and "a_new_raw a = raw"
  shows "annotate_file ua today path raw purpose index_hint w dry_run refresh ti
    = Inr (False, u ''no-op: '' @ path_str path, None)"
  using assms by (simp add: annotate_file_def)


section \<open>The example files, run\<close>

text \<open>The first and the second run on the Python example, stage by stage.\<close>

lemma py_lines0_plain: "\<forall>l\<in>set py_lines0. plain_line l"
  by (simp add: py_lines0_def plain_line_def linebreak_def str_eval)

lemma py_header1_plain: "\<forall>l\<in>set py_header1. plain_line l"
  by (simp add: py_header1_def plain_line_def linebreak_def str_eval)

lemma py_run1:
  "\<exists>a. annotate_run ascii_db run_date (line_style ''# '') py_path (concat py_lines0) [] [] 120
         False None = Inr a
     \<and> a_removed a = False
     \<and> a_prolog a = take 2 py_lines0
     \<and> a_rest_wo_header a = drop 2 py_lines0
     \<and> map add_nl (a_header a) = py_header1
     \<and> a_new_raw a = concat py_lines1"
  apply (rule exI)
  apply (rule conjI)
   apply (rule annotate_run_stages [where bump = False])
                 apply (rule splitlines_keepends_concat [OF py_lines0_plain])
                apply (simp add: py_path_def py_lines0_def prolog_eval str_eval RE_CODING_def
      re_eval ascii_db_def)
               apply (simp add: py_path_def doc_eval str_eval)
              apply (simp add: py_path_def split_existing_codex_header_def CODEX_MARKER_def
      str_eval)
             apply simp
            apply (simp add: py_path_def HEADER_LINES_def sym_eval re_eval str_eval rec_eval
      ascii_db_def)
           apply (simp add: py_path_def HEADER_LINES_def inh_eval re_eval str_eval rec_eval
      ascii_db_def)
          apply (simp add: fields_eval run_date_def str_eval)
         apply (simp add: py_path_def fields_eval str_eval)
        apply (simp add: render_eval str_eval rec_eval)
       apply (rule refl)
      apply (rule no_bump_fresh, simp)
     apply simp
    apply simp
   apply simp
  apply (intro conjI)
      apply simp
     apply (simp add: py_lines0_def str_eval)
    apply (simp add: py_lines0_def str_eval)
   apply (simp add: py_header1_def add_nl_def str_eval)
  apply simp
  apply (rule assemble_lines)
  apply (simp add: py_lines1_def py_lines0_def py_header1_def add_nl_def str_eval)
  done

lemma py_lines1_plain: "\<forall>l\<in>set py_lines1. plain_line l"
  using py_lines0_plain py_header1_plain
  by (auto simp: py_lines1_def dest: in_set_takeD in_set_dropD)

lemma py_run2:
  "\<exists>a. annotate_run ascii_db run_date (line_style ''# '') py_path (concat py_lines1) [] [] 120
         False None = Inr a
     \<and> a_removed a = True
     \<and> a_new_raw a = concat py_lines2"
  apply (rule exI)
  apply (rule conjI)
   apply (rule annotate_run_stages [where bump = False])
                 apply (rule splitlines_keepends_concat [OF py_lines1_plain])
                apply (simp add: py_path_def py_lines1_def py_lines0_def py_header1_def
      prolog_eval str_eval RE_CODING_def re_eval ascii_db_def)
               apply (simp add: py_path_def doc_eval str_eval)
              apply (simp add: py_path_def split_existing_found HEADER_LINES_def CODEX_MARKER_def
      str_eval)
             apply (simp add: parse_eval re_eval str_eval rec_eval)
            apply (simp add: py_path_def HEADER_LINES_def sym_eval re_eval str_eval rec_eval
      ascii_db_def)
           apply (simp add: py_path_def HEADER_LINES_def inh_eval re_eval str_eval rec_eval
      ascii_db_def)
          apply (simp add: fields_eval run_date_def str_eval)
         apply (simp add: py_path_def fields_eval str_eval)
        apply (simp add: render_eval str_eval rec_eval)
       apply (rule refl)
      apply (rule no_bump_today, simp add: run_date_def str_eval)
     apply simp
    apply simp
   apply simp
  apply (intro conjI)
   apply simp
  apply simp
  apply (rule assemble_lines)
  apply (simp add: py_lines2_def py_lines0_def py_header2_def add_nl_def str_eval)
  done

lemma py_style: "detect_comment_style (path_suffix py_path) = Some (line_style ''# '')"
  by (simp add: py_path_def style_eval)

lemma py_header2_plain: "\<forall>l\<in>set py_header2. plain_line l"
  by (simp add: py_header2_def plain_line_def linebreak_def str_eval)

lemma py_lines2_plain: "\<forall>l\<in>set py_lines2. plain_line l"
  using py_lines0_plain py_header2_plain
  by (auto simp: py_lines2_def dest: in_set_takeD in_set_dropD)

lemma py_text1_neq_text0: "concat py_lines1 \<noteq> concat py_lines0"
proof -
  have "length py_lines1 \<noteq> length py_lines0"
    by (simp add: py_lines1_def py_lines0_def py_header1_def)
  then have "py_lines1 \<noteq> py_lines0" by auto
  then show ?thesis
    using concat_plain_inj [OF py_lines1_plain py_lines0_plain] by simp
qed

lemma py_text2_neq_text1: "concat py_lines2 \<noteq> concat py_lines1"
proof -
  have "py_lines2 ! 4 \<noteq> py_lines1 ! 4"
    by (simp add: py_lines1_def py_lines2_def py_lines0_def py_header1_def py_header2_def
        str_eval)
  then have "py_lines2 \<noteq> py_lines1" by auto
  then show ?thesis
    using concat_plain_inj [OF py_lines2_plain py_lines1_plain] by simp
qed

lemma py_file_run1:
  "annotate_file ascii_db run_date py_path (concat py_lines0) [] [] 120 False False None
   = Inr (True, u ''inserted: a.py'', Some (concat py_lines1))"
proof -
  obtain a where a: "annotate_run ascii_db run_date (line_style ''# '') py_path
      (concat py_lines0) [] [] 120 False None = Inr a"
    "a_removed a = False" "a_new_raw a = concat py_lines1"
    using py_run1 by blast
  have "a_new_raw a \<noteq> concat py_lines0" using a(3) py_text1_neq_text0 by simp
  from annotate_file_changed [OF py_style a(1) this, of False] show ?thesis
    using a(2,3) by (simp add: py_path_def u_def)
qed

lemma py_file_run2:
  "annotate_file ascii_db run_date py_path (concat py_lines1) [] [] 120 False False None
   = Inr (True, u ''updated: a.py'', Some (concat py_lines2))"
proof -
  obtain a where a: "annotate_run ascii_db run_date (line_style ''# '') py_path
      (concat py_lines1) [] [] 120 False None = Inr a"
    "a_removed a = True" "a_new_raw a = concat py_lines2"
    using py_run2 by blast
  have "a_new_raw a \<noteq> concat py_lines1" using a(3) py_text2_neq_text1 by simp
  from annotate_file_changed [OF py_style a(1) this, of False] show ?thesis
    using a(2,3) by (simp add: py_path_def u_def)
qed










section \<open>The frame of \<open>annotate_file\<close>\<close>



section \<open>Shebang and encoding cookie\<close>





lemma coding_line_hash: "matches (RE_CODING ua) l \<Longrightarrow> prefix (u ''#'') l"
  by (cases l) (auto simp: matches_def re_match_def RE_CODING_def u_def split: if_splits)









section \<open>Running twice\<close>

text \<open>
  The Python example has the module docstring \<open>TODO: describe module\<close>. The first run
  takes it as the purpose. The second run reads the purpose back, finds that it looks
  like a placeholder, and writes \<open>Purpose: TODO\<close>: with the same arguments and on the same
  day it reports a change and writes a different text.
\<close>

theorem annotate_file_idempotence_counterexample:
  "annotate_file ascii_db run_date py_path (concat py_lines0) [] [] 120 False False None
     = Inr (True, u ''inserted: a.py'', Some (concat py_lines1))
   \<and> annotate_file ascii_db run_date py_path (concat py_lines1) [] [] 120 False False None
     = Inr (True, u ''updated: a.py'', Some (concat py_lines2))
   \<and> concat py_lines2 \<noteq> concat py_lines1"
  using py_file_run1 py_file_run2 py_text2_neq_text1 by simp

end
